theory Spec2Isabelle
  imports Complex_Main
begin

section \<open>Data model\<close>

text \<open>
  Numbers are JavaScript doubles in the source; they are modelled as real numbers, so
  rounding, overflow and NaN propagation of the arithmetic itself are outside the
  model. Where the source depends on a non-number (a \<open>null\<close> polyline entry, an evaluator
  that throws or returns a non-finite value) the case is a constructor of its own.
\<close>

text \<open>A polyline entry \<open>{x, y}\<close>; a break marker \<open>null\<close> is \<open>None\<close> in a \<open>point option list\<close>.\<close>

record point =
  x :: real
  y :: real

type_synonym polyline = "point option list"

text \<open>\<open>Math.hypot\<close> on two arguments.\<close>

definition hypot :: "real \<Rightarrow> real \<Rightarrow> real" where
  "hypot a b = sqrt (a * a + b * b)"

section \<open>Evaluators\<close>

text \<open>
  What a call of the evaluator \<open>f(x)\<close> can do: throw, return a value that
  \<open>Number.isFinite\<close> rejects (\<open>NaN\<close>, an infinity, or something that is not a number), or
  return a finite number.
\<close>

datatype js_result = Throws | NotFinite | Num real

text \<open>
  The domain predicate \<open>cond\<close>: \<open>None\<close> is \<open>null\<close> (no predicate); a predicate returns
  \<open>Some\<close> of the truth of its result, or \<open>None\<close> when it throws.
\<close>

type_synonym js_cond = "(real \<Rightarrow> real \<Rightarrow> bool option) option"

section \<open>equations.js: parsing an equation\<close>

text \<open>
  Strings are lists of characters, taken to be ASCII. The regular expressions of the
  source are written out as functions on such lists.
\<close>

definition ALLOWED_IDENTIFIERS :: "string list" where
  "ALLOWED_IDENTIFIERS =
     [''x'', ''y'',
      ''PI'', ''E'',
      ''sin'', ''cos'', ''tan'', ''asin'', ''acos'', ''atan'', ''atan2'',
      ''abs'', ''sqrt'', ''pow'', ''log'', ''exp'', ''min'', ''max'',
      ''floor'', ''ceil'', ''round'', ''sign'']"

subsection \<open>Character classes\<close>

text \<open>\<open>\s\<close> on ASCII: space, tab, line feed, vertical tab, form feed, carriage return.\<close>

definition isSpace :: "char \<Rightarrow> bool" where
  "isSpace c \<longleftrightarrow> c \<in> set [CHR '' '', CHR 0x09, CHR 0x0A, CHR 0x0B, CHR 0x0C, CHR 0x0D]"

text \<open>\<open>\d\<close>.\<close>

definition isDigit :: "char \<Rightarrow> bool" where
  "isDigit c \<longleftrightarrow> c \<in> set ''0123456789''"

text \<open>\<open>[A-Za-z]\<close>.\<close>

definition isLetter :: "char \<Rightarrow> bool" where
  "isLetter c \<longleftrightarrow> c \<in> set ''abcdefghijklmnopqrstuvwxyzABCDEFGHIJKLMNOPQRSTUVWXYZ''"

text \<open>\<open>\w\<close>, the class that decides a word boundary \<open>\b\<close>.\<close>

definition isWordChar :: "char \<Rightarrow> bool" where
  "isWordChar c \<longleftrightarrow> isLetter c \<or> isDigit c \<or> c = CHR ''_''"

text \<open>\<open>[xy]\<close> under the flag \<open>i\<close>.\<close>

definition isVar :: "char \<Rightarrow> bool" where
  "isVar c \<longleftrightarrow> c \<in> set ''xyXY''"

text \<open>
  The two halves of \<open>\b\<close>: whether the character before the position (none at the start)
  and the character at the position (none at the end) are word characters.
\<close>

definition wordBefore :: "char option \<Rightarrow> bool" where
  "wordBefore prev = (case prev of None \<Rightarrow> False | Some c \<Rightarrow> isWordChar c)"

definition wordAfter :: "string \<Rightarrow> bool" where
  "wordAfter s = (case s of [] \<Rightarrow> False | c # rest \<Rightarrow> isWordChar c)"

text \<open>\<open>String.prototype.trim\<close>.\<close>

definition trim :: "string \<Rightarrow> string" where
  "trim s = rev (dropWhile isSpace (rev (dropWhile isSpace s)))"

subsection \<open>Global replacement\<close>

text \<open>
  A pattern tried at one position: given the character before the position and the
  text from the position on, the replacement and the length of the match. All patterns
  here match at least one character.
\<close>

type_synonym matcher = "char option \<Rightarrow> string \<Rightarrow> (string \<times> nat) option"

text \<open>
  \<open>s.replace(/.../g, ...)\<close>: the pattern is tried at each position from left to right;
  a match is replaced and the search goes on after it. \<open>skip\<close> counts the characters of
  the current match still to pass over, \<open>prev\<close> is the character before the position
  in the original text.
\<close>

fun replaceAll :: "matcher \<Rightarrow> nat \<Rightarrow> char option \<Rightarrow> string \<Rightarrow> string" where
  "replaceAll m skip prev [] = []"
| "replaceAll m (Suc k) prev (c # cs) = replaceAll m k (Some c) cs"
| "replaceAll m 0 prev (c # cs) =
     (case m prev (c # cs) of
        Some (rep, n) \<Rightarrow> rep @ replaceAll m (n - 1) (Some c) cs
      | None \<Rightarrow> c # replaceAll m 0 (Some c) cs)"

definition replaceGlobal :: "matcher \<Rightarrow> string \<Rightarrow> string" where
  "replaceGlobal m s = replaceAll m 0 None s"

subsection \<open>sanitizeExpression\<close>

text \<open>\<open>expr.replace(/^[yx]\s*=\s*/i, '')\<close>.\<close>

definition stripLeadingVar :: "string \<Rightarrow> string" where
  "stripLeadingVar s =
     (case s of
        [] \<Rightarrow> s
      | v # rest \<Rightarrow>
          if isVar v then
            (case dropWhile isSpace rest of
               [] \<Rightarrow> s
             | e # after \<Rightarrow> if e = CHR ''='' then dropWhile isSpace after else s)
          else s)"

text \<open>\<open>/\^/g\<close> to \<open>'**'\<close>.\<close>

definition caretMatch :: matcher where
  "caretMatch prev s =
     (case s of [] \<Rightarrow> None
      | c # rest \<Rightarrow> if c = CHR ''^'' then Some (''**'', 1) else None)"

text \<open>\<open>/\bln\s*\(/gi\<close> to \<open>'log('\<close>.\<close>

definition lnMatch :: matcher where
  "lnMatch prev s =
     (case s of
        l # n # rest \<Rightarrow>
          if \<not> wordBefore prev \<and> l \<in> set ''lL'' \<and> n \<in> set ''nN'' then
            (case dropWhile isSpace rest of
               [] \<Rightarrow> None
             | p # after \<Rightarrow>
                 if p = CHR ''(''
                 then Some (''log('', 2 + length (takeWhile isSpace rest) + 1) else None)
          else None
      | _ \<Rightarrow> None)"

text \<open>\<open>/(\d)\s*([xy])\b/gi\<close> to \<open>'$1*$2'\<close>.\<close>

definition digitVarMatch :: matcher where
  "digitVarMatch prev s =
     (case s of
        [] \<Rightarrow> None
      | d # rest \<Rightarrow>
          if isDigit d then
            (case dropWhile isSpace rest of
               [] \<Rightarrow> None
             | v # after \<Rightarrow>
                 if isVar v \<and> \<not> wordAfter after
                 then Some ([d, CHR ''*'', v], 1 + length (takeWhile isSpace rest) + 1) else None)
          else None)"

text \<open>\<open>/\b([xy])\s*(\d)/gi\<close> to \<open>'$1*$2'\<close>.\<close>

definition varDigitMatch :: matcher where
  "varDigitMatch prev s =
     (case s of
        [] \<Rightarrow> None
      | v # rest \<Rightarrow>
          if \<not> wordBefore prev \<and> isVar v then
            (case dropWhile isSpace rest of
               [] \<Rightarrow> None
             | d # after \<Rightarrow>
                 if isDigit d
                 then Some ([v, CHR ''*'', d], 1 + length (takeWhile isSpace rest) + 1) else None)
          else None)"

text \<open>\<open>/\b([xy])\s*\(/gi\<close> to \<open>'$1*('\<close>.\<close>

definition varParenMatch :: matcher where
  "varParenMatch prev s =
     (case s of
        [] \<Rightarrow> None
      | v # rest \<Rightarrow>
          if \<not> wordBefore prev \<and> isVar v then
            (case dropWhile isSpace rest of
               [] \<Rightarrow> None
             | p # after \<Rightarrow>
                 if p = CHR ''(''
                 then Some ([v, CHR ''*'', CHR ''(''], 1 + length (takeWhile isSpace rest) + 1)
                 else None)
          else None)"

text \<open>\<open>/\)\s*([xy])\b/gi\<close> to \<open>')*$1'\<close>.\<close>

definition parenVarMatch :: matcher where
  "parenVarMatch prev s =
     (case s of
        [] \<Rightarrow> None
      | p # rest \<Rightarrow>
          if p = CHR '')'' then
            (case dropWhile isSpace rest of
               [] \<Rightarrow> None
             | v # after \<Rightarrow>
                 if isVar v \<and> \<not> wordAfter after
                 then Some ([CHR '')'', CHR ''*'', v], 1 + length (takeWhile isSpace rest) + 1)
                 else None)
          else None)"

text \<open>\<open>/\)\s*\(/g\<close> to \<open>')*('\<close>.\<close>

definition parenParenMatch :: matcher where
  "parenParenMatch prev s =
     (case s of
        [] \<Rightarrow> None
      | p # rest \<Rightarrow>
          if p = CHR '')'' then
            (case dropWhile isSpace rest of
               [] \<Rightarrow> None
             | p' # after \<Rightarrow>
                 if p' = CHR ''(''
                 then Some ('')*('', 1 + length (takeWhile isSpace rest) + 1) else None)
          else None)"

definition sanitizeExpression :: "string \<Rightarrow> string" where
  "sanitizeExpression input =
     (let expr = trim input;
          expr = stripLeadingVar expr;
          expr = replaceGlobal caretMatch expr;
          expr = replaceGlobal lnMatch expr;
          expr = replaceGlobal digitVarMatch expr;
          expr = replaceGlobal varDigitMatch expr;
          expr = replaceGlobal varParenMatch expr;
          expr = replaceGlobal parenVarMatch expr;
          expr = replaceGlobal parenParenMatch expr
      in expr)"

subsection \<open>Validation\<close>

text \<open>
  The errors thrown while parsing, one constructor for each message of the source;
  \<open>errorMessage\<close> gives the text of the \<open>Error\<close>.
\<close>

datatype parse_error =
    InvalidCharactersInCondition
  | UnknownIdentifierInCondition string
  | FailedToParseCondition
  | InvalidCharactersInExpression
  | UnknownIdentifier string
  | FailedToParseExpression
  | FailedToParseExpressionForY

fun errorMessage :: "parse_error \<Rightarrow> string" where
  "errorMessage InvalidCharactersInCondition = ''Invalid characters in condition''"
| "errorMessage (UnknownIdentifierInCondition ident) = ''Unknown identifier in condition: '' @ ident"
| "errorMessage FailedToParseCondition = ''Failed to parse condition''"
| "errorMessage InvalidCharactersInExpression = ''Invalid characters in expression''"
| "errorMessage (UnknownIdentifier ident) = ''Unknown identifier: '' @ ident"
| "errorMessage FailedToParseExpression = ''Failed to parse expression''"
| "errorMessage FailedToParseExpressionForY =
     ''Failed to parse expression for x as a function of y''"

text \<open>The characters outside which \<open>/[^0-9+\-*/^()\. ,a-zA-Z_]/\<close> finds a match.\<close>

definition allowedExpressionChar :: "char \<Rightarrow> bool" where
  "allowedExpressionChar c \<longleftrightarrow>
     isDigit c \<or> c \<in> set ''+-*/^(). ,'' \<or> isLetter c \<or> c = CHR ''_''"

text \<open>The same for \<open>/[^0-9+\-*/^()\. ,a-zA-Z_<>!=&|]/\<close>.\<close>

definition allowedConditionChar :: "char \<Rightarrow> bool" where
  "allowedConditionChar c \<longleftrightarrow> allowedExpressionChar c \<or> c \<in> set ''<>!=&|''"

text \<open>
  \<open>expr.match(/[A-Za-z_][A-Za-z0-9_]*/g) || []\<close>: the identifier tokens from left to
  right. \<open>cur\<close> is the token being read, if any.
\<close>

fun idScan :: "string option \<Rightarrow> string \<Rightarrow> string list" where
  "idScan None [] = []"
| "idScan (Some tok) [] = [tok]"
| "idScan None (c # cs) =
     (if isLetter c \<or> c = CHR ''_'' then idScan (Some [c]) cs else idScan None cs)"
| "idScan (Some tok) (c # cs) =
     (if isWordChar c then idScan (Some (tok @ [c])) cs else tok # idScan None cs)"

definition identifiers :: "string \<Rightarrow> string list" where
  "identifiers expr = idScan None expr"

text \<open>\<open>validateExpression\<close>: \<open>None\<close> when it returns, \<open>Some\<close> of the error when it throws.\<close>

definition validateExpression :: "string \<Rightarrow> parse_error option" where
  "validateExpression expr =
     (if list_ex (\<lambda>c. \<not> allowedExpressionChar c) expr then Some InvalidCharactersInExpression
      else (case find (\<lambda>ident. ident \<notin> set ALLOWED_IDENTIFIERS) (identifiers expr) of
              Some ident \<Rightarrow> Some (UnknownIdentifier ident)
            | None \<Rightarrow> None))"

definition validateCondition :: "string \<Rightarrow> parse_error option" where
  "validateCondition expr =
     (if list_ex (\<lambda>c. \<not> allowedConditionChar c) expr then Some InvalidCharactersInCondition
      else (case find (\<lambda>ident. ident \<notin> set ALLOWED_IDENTIFIERS) (identifiers expr) of
              Some ident \<Rightarrow> Some (UnknownIdentifierInCondition ident)
            | None \<Rightarrow> None))"

subsection \<open>extractCondition\<close>

text \<open>
  \<open>raw.match(/\{([^}]*)\}\s*$/)\<close>: the leftmost \<open>{\<close> whose first following \<open>}\<close> is followed
  by white space only. The result is the text before the match (\<open>raw.slice(0, m.index)\<close>)
  and the text between the braces.
\<close>

fun findCondition :: "string \<Rightarrow> string \<Rightarrow> (string \<times> string) option" where
  "findCondition pre [] = None"
| "findCondition pre (c # cs) =
     (if c = CHR ''{'' \<and>
         (case dropWhile (\<lambda>d. d \<noteq> CHR ''}'') cs of
            [] \<Rightarrow> False
          | closing # tail \<Rightarrow> list_all isSpace tail)
      then Some (pre, takeWhile (\<lambda>d. d \<noteq> CHR ''}'') cs)
      else findCondition (pre @ [c]) cs)"

text \<open>The result \<open>{base, condSrc}\<close>; \<open>condSrc\<close> is \<open>None\<close> for \<open>null\<close>.\<close>

definition extractCondition :: "string \<Rightarrow> string \<times> string option" where
  "extractCondition raw =
     (case findCondition [] raw of
        None \<Rightarrow> (raw, None)
      | Some (pre, inner) \<Rightarrow> (trim pre, Some (trim inner)))"

subsection \<open>Building the functions\<close>

text \<open>
  The \<open>Function\<close> constructor of the JavaScript engine, as the source uses it. The source
  builds three kinds of function text, which differ in the parameters and in the
  expression spliced in:
  \<^item> \<open>compileNumeric v expr\<close> is \<open>new Function(v, 'Math', '... return (expr);')\<close>, with
    \<open>v\<close> the name \<open>x\<close> or \<open>y\<close>, applied to a number and \<open>Math\<close>;
  \<^item> \<open>compileCondition expr\<close> is \<open>new Function('x', 'y', 'Math', '... return !!(expr);')\<close>,
    applied to two numbers and \<open>Math\<close>; a call gives \<open>None\<close> when it throws.
  \<open>None\<close> as the result of the constructor is the \<open>SyntaxError\<close> it throws on a text
  that does not parse.
\<close>

record js_engine =
  compileNumeric :: "string \<Rightarrow> string \<Rightarrow> (real \<Rightarrow> js_result) option"
  compileCondition :: "string \<Rightarrow> (real \<Rightarrow> real \<Rightarrow> bool option) option"

definition buildFunction :: "js_engine \<Rightarrow> string \<Rightarrow> parse_error + (real \<Rightarrow> js_result)" where
  "buildFunction E expr =
     (case compileNumeric E ''x'' expr of
        None \<Rightarrow> Inl FailedToParseExpression
      | Some fn \<Rightarrow> Inr fn)"

text \<open>
  The central difference \<open>(f(x + h) - f(x - h)) / (2 * h)\<close> with \<open>h = 1e-4\<close>: the first call
  that throws makes the derivative throw; a value that is not a finite number makes the
  result not finite.
\<close>

definition centralDifference :: "(real \<Rightarrow> js_result) \<Rightarrow> real \<Rightarrow> js_result" where
  "centralDifference fn t =
     (let h = 0.0001
      in case fn (t + h) of
           Throws \<Rightarrow> Throws
         | NotFinite \<Rightarrow> (case fn (t - h) of Throws \<Rightarrow> Throws | _ \<Rightarrow> NotFinite)
         | Num u \<Rightarrow>
             (case fn (t - h) of
                Throws \<Rightarrow> Throws
              | NotFinite \<Rightarrow> NotFinite
              | Num v \<Rightarrow> Num ((u - v) / (2 * h))))"

definition buildDerivative :: "js_engine \<Rightarrow> string \<Rightarrow> parse_error + (real \<Rightarrow> js_result)" where
  "buildDerivative E expr =
     (case buildFunction E expr of
        Inl e \<Rightarrow> Inl e
      | Inr fn \<Rightarrow> Inr (centralDifference fn))"

definition buildFunctionForY :: "js_engine \<Rightarrow> string \<Rightarrow> parse_error + (real \<Rightarrow> js_result)" where
  "buildFunctionForY E expr =
     (case compileNumeric E ''y'' expr of
        None \<Rightarrow> Inl FailedToParseExpressionForY
      | Some fn \<Rightarrow> Inr fn)"

definition buildDerivativeForY :: "js_engine \<Rightarrow> string \<Rightarrow> parse_error + (real \<Rightarrow> js_result)" where
  "buildDerivativeForY E expr =
     (case buildFunctionForY E expr of
        Inl e \<Rightarrow> Inl e
      | Inr fn \<Rightarrow> Inr (centralDifference fn))"

subsection \<open>parseEquationToFunction\<close>

text \<open>The field \<open>type\<close>: \<open>'xOfY'\<close> or \<open>'yOfX'\<close>.\<close>

datatype orientation = XofY | YofX

text \<open>The result \<open>{expr, f, df, type, cond}\<close>.\<close>

record parsed =
  parsed_expr :: string
  parsed_f :: "real \<Rightarrow> js_result"
  parsed_df :: "real \<Rightarrow> js_result"
  parsed_type :: orientation
  parsed_cond :: js_cond

text \<open>\<open>/^x\s*=/.test(base.toLowerCase())\<close>: an \<open>x\<close> or \<open>X\<close>, white space, \<open>=\<close>.\<close>

definition isXofY :: "string \<Rightarrow> bool" where
  "isXofY base =
     (case base of
        [] \<Rightarrow> False
      | v # rest \<Rightarrow>
          v \<in> set ''xX'' \<and>
          (case dropWhile isSpace rest of [] \<Rightarrow> False | e # after \<Rightarrow> e = CHR ''=''))"

text \<open>
  Lines 206-223: the predicate built from the condition clause, \<open>null\<close> when there is
  none or it is empty. The predicate returns \<open>false\<close> when the compiled function throws.
\<close>

definition buildCondition :: "js_engine \<Rightarrow> string option \<Rightarrow> parse_error + js_cond" where
  "buildCondition E condSrc =
     (case condSrc of
        None \<Rightarrow> Inr None
      | Some src \<Rightarrow>
          if src = [] then Inr None
          else (let condExpr = sanitizeExpression src
                in case validateCondition condExpr of
                     Some e \<Rightarrow> Inl e
                   | None \<Rightarrow>
                       (case compileCondition E condExpr of
                          None \<Rightarrow> Inl FailedToParseCondition
                        | Some cfun \<Rightarrow>
                            Inr (Some (\<lambda>a b. Some (case cfun a b of None \<Rightarrow> False
                                                     | Some ok \<Rightarrow> ok))))))"

definition parseEquationToFunction :: "js_engine \<Rightarrow> string \<Rightarrow> parse_error + parsed" where
  "parseEquationToFunction E input =
     (let raw = trim input;
          base = fst (extractCondition raw);
          condSrc = snd (extractCondition raw)
      in case buildCondition E condSrc of
           Inl e \<Rightarrow> Inl e
         | Inr cond \<Rightarrow>
             (let expr = sanitizeExpression base
              in case validateExpression expr of
                   Some e \<Rightarrow> Inl e
                 | None \<Rightarrow>
                     if isXofY base then
                       (case buildFunctionForY E expr of
                          Inl e \<Rightarrow> Inl e
                        | Inr g \<Rightarrow>
                            (case buildDerivativeForY E expr of
                               Inl e \<Rightarrow> Inl e
                             | Inr dg \<Rightarrow>
                                 Inr \<lparr>parsed_expr = expr, parsed_f = g, parsed_df = dg,
                                      parsed_type = XofY, parsed_cond = cond\<rparr>))
                     else
                       (case buildFunction E expr of
                          Inl e \<Rightarrow> Inl e
                        | Inr fn \<Rightarrow>
                            (case buildDerivative E expr of
                               Inl e \<Rightarrow> Inl e
                             | Inr dfn \<Rightarrow>
                                 Inr \<lparr>parsed_expr = expr, parsed_f = fn, parsed_df = dfn,
                                      parsed_type = YofX, parsed_cond = cond\<rparr>))))"

section \<open>equations.js: sampleCurve and sampleCurveY\<close>

definition MAX_DEPTH :: nat where
  "MAX_DEPTH = 12"

definition TOL :: real where
  "TOL = 0.01"

definition MAX_Y :: real where
  "MAX_Y = 1000000"

definition MAX_X :: real where
  "MAX_X = 1000000"

text \<open>\<open>safeEval\<close> of \<open>sampleCurve\<close> (lines 246-256): \<open>None\<close> is \<open>null\<close>.\<close>

definition safeEval :: "(real \<Rightarrow> js_result) \<Rightarrow> js_cond \<Rightarrow> real \<Rightarrow> real option" where
  "safeEval f cond x =
     (case f x of
        Throws \<Rightarrow> None
      | NotFinite \<Rightarrow> None
      | Num fx \<Rightarrow>
          if \<bar>fx\<bar> > MAX_Y then None
          else (case cond of
                  None \<Rightarrow> Some fx
                | Some c \<Rightarrow>
                    (case c x fx of
                       None \<Rightarrow> None
                     | Some ok \<Rightarrow> if \<not> ok then None else Some fx)))" for x

text \<open>\<open>addBreak\<close> (lines 258-260).\<close>

definition addBreak :: "polyline \<Rightarrow> polyline" where
  "addBreak pts = (if pts = [] \<or> last pts \<noteq> None then pts @ [None] else pts)"

text \<open>
  The accepted segment (lines 301-305): push the start after a break or at the
  beginning, the midpoint unless it repeats the \<open>x\<close> of the last point, and the end
  unless it repeats the \<open>x\<close> of the midpoint.
\<close>

definition acceptSegment :: "real \<Rightarrow> real \<Rightarrow> real \<Rightarrow> real \<Rightarrow> real \<Rightarrow> real \<Rightarrow> polyline \<Rightarrow> polyline" where
  "acceptSegment x0 y0 xm ym x1 y1 pts =
     (let pts = (if pts = [] \<or> last pts = None
                 then pts @ [Some \<lparr>point.x = x0, point.y = y0\<rparr>] else pts);
          pts = (if pts = [] then pts @ [Some \<lparr>point.x = xm, point.y = ym\<rparr>]
                 else (case last pts of
                         None \<Rightarrow> pts @ [Some \<lparr>point.x = xm, point.y = ym\<rparr>]
                       | Some l \<Rightarrow>
                           if \<bar>xm - point.x l\<bar> > 0.000000001
                           then pts @ [Some \<lparr>point.x = xm, point.y = ym\<rparr>] else pts))
      in if \<bar>x1 - xm\<bar> > 0.000000001 then pts @ [Some \<lparr>point.x = x1, point.y = y1\<rparr>] else pts)"

text \<open>
  The test \<open>err > TOL || steepJump\<close> of lines 293-296. With \<open>x1 = x0\<close> the quotient
  \<open>(xm - x0) / (x1 - x0)\<close> is \<open>0 / 0\<close>, so \<open>err\<close> is \<open>NaN\<close> and \<open>err > TOL\<close> is false.
\<close>

definition needsRefinement :: "real \<Rightarrow> real \<Rightarrow> real \<Rightarrow> real \<Rightarrow> real \<Rightarrow> real \<Rightarrow> bool" where
  "needsRefinement x0 y0 xm ym x1 y1 =
     (let yl = y0 + (y1 - y0) * ((xm - x0) / (x1 - x0));
          err = \<bar>ym - yl\<bar>;
          steepJump = (\<bar>y1 - y0\<bar> > 10 / max 0.000001 (x1 - x0))
      in (x1 \<noteq> x0 \<and> err > TOL) \<or> steepJump)"

text \<open>
  \<open>subdivide\<close> of \<open>sampleCurve\<close> (lines 262-307); the array \<open>pts\<close> it pushes to is passed in
  and returned.
\<close>

function subdivide ::
  "(real \<Rightarrow> js_result) \<Rightarrow> js_cond \<Rightarrow> real \<Rightarrow> real option \<Rightarrow> real \<Rightarrow> real option \<Rightarrow> nat \<Rightarrow> polyline \<Rightarrow> polyline" where
  "subdivide f cond x0 y0 x1 y1 depth pts =
     (if y0 = None \<and> y1 = None then addBreak pts
      else if y0 = None then
        (if depth \<ge> MAX_DEPTH then addBreak pts
         else subdivide f cond (0.5 * (x0 + x1)) (safeEval f cond (0.5 * (x0 + x1))) x1 y1 (depth + 1)
                (subdivide f cond x0 y0 (0.5 * (x0 + x1)) (safeEval f cond (0.5 * (x0 + x1))) (depth + 1) pts))
      else if y1 = None then
        (if depth \<ge> MAX_DEPTH then addBreak pts
         else subdivide f cond (0.5 * (x0 + x1)) (safeEval f cond (0.5 * (x0 + x1))) x1 y1 (depth + 1)
                (subdivide f cond x0 y0 (0.5 * (x0 + x1)) (safeEval f cond (0.5 * (x0 + x1))) (depth + 1) pts))
      else if safeEval f cond (0.5 * (x0 + x1)) = None then
        (if depth \<ge> MAX_DEPTH then addBreak pts
         else subdivide f cond (0.5 * (x0 + x1)) (safeEval f cond (0.5 * (x0 + x1))) x1 y1 (depth + 1)
                (subdivide f cond x0 y0 (0.5 * (x0 + x1)) (safeEval f cond (0.5 * (x0 + x1))) (depth + 1) pts))
      else if needsRefinement x0 (the y0) (0.5 * (x0 + x1)) (the (safeEval f cond (0.5 * (x0 + x1)))) x1 (the y1)
              \<and> depth < MAX_DEPTH then
        subdivide f cond (0.5 * (x0 + x1)) (safeEval f cond (0.5 * (x0 + x1))) x1 y1 (depth + 1)
          (subdivide f cond x0 y0 (0.5 * (x0 + x1)) (safeEval f cond (0.5 * (x0 + x1))) (depth + 1) pts)
      else acceptSegment x0 (the y0) (0.5 * (x0 + x1)) (the (safeEval f cond (0.5 * (x0 + x1)))) x1 (the y1) pts)"
  by pat_completeness auto
termination
  by (relation "measure (\<lambda>(f, cond, x0, y0, x1, y1, depth, pts). MAX_DEPTH - depth)") auto

declare subdivide.simps [simp del]

text \<open>
  The loop of lines 313-319 over the coarse intervals, from its test \<open>x0 < xMax + 1e-9\<close>
  on: \<open>Some\<close> of the array \<open>pts\<close> when the loop ends, \<open>None\<close> if it never does.
\<close>

partial_function (option) sampleLoop ::
  "(real \<Rightarrow> js_result) \<Rightarrow> js_cond \<Rightarrow> real \<Rightarrow> real \<Rightarrow> real \<Rightarrow> real option \<Rightarrow> real \<Rightarrow> polyline \<Rightarrow> polyline option" where
  "sampleLoop f cond coarse xMax x0 y0 x1 pts =
     (if x0 < xMax + 0.000000001 then
        (if x1 \<ge> xMax
         then Some (subdivide f cond x0 y0 x1 (safeEval f cond x1) 0 pts)
         else sampleLoop f cond coarse xMax x1 (safeEval f cond x1) (min (x1 + coarse) xMax)
                (subdivide f cond x0 y0 x1 (safeEval f cond x1) 0 pts))
      else Some pts)"

text \<open>
  One step of the clean-up loop of lines 323-332 (and 126-133): \<open>out\<close> after the entry
  \<open>p\<close> has been looked at.
\<close>

definition cleanStep :: "polyline \<Rightarrow> point option \<Rightarrow> polyline" where
  "cleanStep out p =
     (case p of
        None \<Rightarrow> if out \<noteq> [] \<and> last out \<noteq> None then out @ [None] else out
      | Some p' \<Rightarrow>
          if out = [] then out @ [Some p']
          else (case last out of
                  None \<Rightarrow> out @ [Some p']
                | Some l \<Rightarrow>
                    if hypot (point.x p' - point.x l) (point.y p' - point.y l) > 0.000000001
                    then out @ [Some p'] else out))"

fun cleanUp :: "polyline \<Rightarrow> polyline \<Rightarrow> polyline" where
  "cleanUp [] out = out"
| "cleanUp (p # pts) out = cleanUp pts (cleanStep out p)"

text \<open>\<open>sampleCurve(f, xMin, xMax, step, cond)\<close>.\<close>

definition sampleCurve ::
  "(real \<Rightarrow> js_result) \<Rightarrow> real \<Rightarrow> real \<Rightarrow> real \<Rightarrow> js_cond \<Rightarrow> polyline option" where
  "sampleCurve f xMin xMax step cond =
     (let coarse = max step ((xMax - xMin) / 64);
          x0 = xMin;
          y0 = safeEval f cond x0
      in case sampleLoop f cond coarse xMax x0 y0 (min (x0 + coarse) xMax) [] of
           None \<Rightarrow> None
         | Some pts \<Rightarrow> Some (cleanUp pts []))"

subsection \<open>sampleCurveY\<close>

text \<open>\<open>safeEval\<close> of \<open>sampleCurveY\<close> (lines 67-77): the predicate is called as \<open>cond(x, y)\<close>.\<close>

definition safeEvalY :: "(real \<Rightarrow> js_result) \<Rightarrow> js_cond \<Rightarrow> real \<Rightarrow> real option" where
  "safeEvalY g cond y =
     (case g y of
        Throws \<Rightarrow> None
      | NotFinite \<Rightarrow> None
      | Num gy \<Rightarrow>
          if \<bar>gy\<bar> > MAX_X then None
          else (case cond of
                  None \<Rightarrow> Some gy
                | Some c \<Rightarrow>
                    (case c gy y of
                       None \<Rightarrow> None
                     | Some ok \<Rightarrow> if \<not> ok then None else Some gy)))" for y

text \<open>The accepted segment of \<open>sampleCurveY\<close> (lines 107-110): the points are \<open>{x: x0, y: y0}\<close>, compared by \<open>y\<close>.\<close>

definition acceptSegmentY :: "real \<Rightarrow> real \<Rightarrow> real \<Rightarrow> real \<Rightarrow> real \<Rightarrow> real \<Rightarrow> polyline \<Rightarrow> polyline" where
  "acceptSegmentY y0 x0 ym xm y1 x1 pts =
     (let pts = (if pts = [] \<or> last pts = None
                 then pts @ [Some \<lparr>point.x = x0, point.y = y0\<rparr>] else pts);
          pts = (if pts = [] then pts @ [Some \<lparr>point.x = xm, point.y = ym\<rparr>]
                 else (case last pts of
                         None \<Rightarrow> pts @ [Some \<lparr>point.x = xm, point.y = ym\<rparr>]
                       | Some l \<Rightarrow>
                           if \<bar>ym - point.y l\<bar> > 0.000000001
                           then pts @ [Some \<lparr>point.x = xm, point.y = ym\<rparr>] else pts))
      in if \<bar>y1 - ym\<bar> > 0.000000001 then pts @ [Some \<lparr>point.x = x1, point.y = y1\<rparr>] else pts)"

text \<open>The test of lines 100-103, with the roles of the coordinates exchanged.\<close>

definition needsRefinementY :: "real \<Rightarrow> real \<Rightarrow> real \<Rightarrow> real \<Rightarrow> real \<Rightarrow> real \<Rightarrow> bool" where
  "needsRefinementY y0 x0 ym xm y1 x1 =
     (let xl = x0 + (x1 - x0) * ((ym - y0) / (y1 - y0));
          err = \<bar>xm - xl\<bar>;
          steepJump = (\<bar>x1 - x0\<bar> > 10 / max 0.000001 (y1 - y0))
      in (y1 \<noteq> y0 \<and> err > TOL) \<or> steepJump)"

text \<open>\<open>subdivide\<close> of \<open>sampleCurveY\<close> (lines 81-112).\<close>

function subdivideY ::
  "(real \<Rightarrow> js_result) \<Rightarrow> js_cond \<Rightarrow> real \<Rightarrow> real option \<Rightarrow> real \<Rightarrow> real option \<Rightarrow> nat \<Rightarrow> polyline \<Rightarrow> polyline" where
  "subdivideY g cond y0 x0 y1 x1 depth pts =
     (if x0 = None \<and> x1 = None then addBreak pts
      else if x0 = None \<or> x1 = None then
        (if depth \<ge> MAX_DEPTH then addBreak pts
         else subdivideY g cond (0.5 * (y0 + y1)) (safeEvalY g cond (0.5 * (y0 + y1))) y1 x1 (depth + 1)
                (subdivideY g cond y0 x0 (0.5 * (y0 + y1)) (safeEvalY g cond (0.5 * (y0 + y1))) (depth + 1) pts))
      else if safeEvalY g cond (0.5 * (y0 + y1)) = None then
        (if depth \<ge> MAX_DEPTH then addBreak pts
         else subdivideY g cond (0.5 * (y0 + y1)) (safeEvalY g cond (0.5 * (y0 + y1))) y1 x1 (depth + 1)
                (subdivideY g cond y0 x0 (0.5 * (y0 + y1)) (safeEvalY g cond (0.5 * (y0 + y1))) (depth + 1) pts))
      else if needsRefinementY y0 (the x0) (0.5 * (y0 + y1)) (the (safeEvalY g cond (0.5 * (y0 + y1)))) y1 (the x1)
              \<and> depth < MAX_DEPTH then
        subdivideY g cond (0.5 * (y0 + y1)) (safeEvalY g cond (0.5 * (y0 + y1))) y1 x1 (depth + 1)
          (subdivideY g cond y0 x0 (0.5 * (y0 + y1)) (safeEvalY g cond (0.5 * (y0 + y1))) (depth + 1) pts)
      else acceptSegmentY y0 (the x0) (0.5 * (y0 + y1)) (the (safeEvalY g cond (0.5 * (y0 + y1)))) y1 (the x1) pts)"
  by pat_completeness auto
termination
  by (relation "measure (\<lambda>(g, cond, y0, x0, y1, x1, depth, pts). MAX_DEPTH - depth)") auto

declare subdivideY.simps [simp del]

text \<open>The loop of lines 117-123.\<close>

partial_function (option) sampleLoopY ::
  "(real \<Rightarrow> js_result) \<Rightarrow> js_cond \<Rightarrow> real \<Rightarrow> real \<Rightarrow> real \<Rightarrow> real option \<Rightarrow> real \<Rightarrow> polyline \<Rightarrow> polyline option" where
  "sampleLoopY g cond coarse yMax y0 x0 y1 pts =
     (if y0 < yMax + 0.000000001 then
        (if y1 \<ge> yMax
         then Some (subdivideY g cond y0 x0 y1 (safeEvalY g cond y1) 0 pts)
         else sampleLoopY g cond coarse yMax y1 (safeEvalY g cond y1) (min (y1 + coarse) yMax)
                (subdivideY g cond y0 x0 y1 (safeEvalY g cond y1) 0 pts))
      else Some pts)"

text \<open>\<open>sampleCurveY(g, yMin, yMax, step, cond)\<close>.\<close>

definition sampleCurveY ::
  "(real \<Rightarrow> js_result) \<Rightarrow> real \<Rightarrow> real \<Rightarrow> real \<Rightarrow> js_cond \<Rightarrow> polyline option" where
  "sampleCurveY g yMin yMax step cond =
     (let coarse = max step ((yMax - yMin) / 64);
          y0 = yMin;
          x0 = safeEvalY g cond y0
      in case sampleLoopY g cond coarse yMax y0 x0 (min (y0 + coarse) yMax) [] of
           None \<Rightarrow> None
         | Some pts \<Rightarrow> Some (cleanUp pts []))"

subsection \<open>Properties of a polyline\<close>

text \<open>
  A stored point comes from a successful evaluation: the evaluator returned the finite
  number stored, of magnitude at most \<open>1e6\<close>, and the predicate, when there is one,
  returned true on the point. For \<open>sampleCurve\<close> the input is the \<open>x\<close> of the point, for
  \<open>sampleCurveY\<close> its \<open>y\<close>.
\<close>

definition validSample :: "(real \<Rightarrow> js_result) \<Rightarrow> js_cond \<Rightarrow> point \<Rightarrow> bool" where
  "validSample f cond p \<longleftrightarrow>
     f (point.x p) = Num (point.y p) \<and> \<bar>point.y p\<bar> \<le> 1000000 \<and>
     (case cond of None \<Rightarrow> True | Some c \<Rightarrow> c (point.x p) (point.y p) = Some True)"

definition validSampleY :: "(real \<Rightarrow> js_result) \<Rightarrow> js_cond \<Rightarrow> point \<Rightarrow> bool" where
  "validSampleY g cond p \<longleftrightarrow>
     g (point.y p) = Num (point.x p) \<and> \<bar>point.x p\<bar> \<le> 1000000 \<and>
     (case cond of None \<Rightarrow> True | Some c \<Rightarrow> c (point.x p) (point.y p) = Some True)"

definition allValid :: "(real \<Rightarrow> js_result) \<Rightarrow> js_cond \<Rightarrow> polyline \<Rightarrow> bool" where
  "allValid f cond pts \<longleftrightarrow> (\<forall>p. Some p \<in> set pts \<longrightarrow> validSample f cond p)"

definition allValidY :: "(real \<Rightarrow> js_result) \<Rightarrow> js_cond \<Rightarrow> polyline \<Rightarrow> bool" where
  "allValidY g cond pts \<longleftrightarrow> (\<forall>p. Some p \<in> set pts \<longrightarrow> validSampleY g cond p)"

text \<open>
  No two adjacent points within \<open>1e-9\<close> of each other, no two adjacent break markers, no
  break marker in the first position.
\<close>

fun noCoincident :: "polyline \<Rightarrow> bool" where
  "noCoincident (Some a # Some b # rest) =
     (hypot (point.x b - point.x a) (point.y b - point.y a) > 0.000000001 \<and>
      noCoincident (Some b # rest))"
| "noCoincident (p # rest) = noCoincident rest"
| "noCoincident [] = True"

fun noDoubleBreak :: "polyline \<Rightarrow> bool" where
  "noDoubleBreak (None # None # rest) = False"
| "noDoubleBreak (p # rest) = noDoubleBreak rest"
| "noDoubleBreak [] = True"

definition noLeadingBreak :: "polyline \<Rightarrow> bool" where
  "noLeadingBreak out = (case out of [] \<Rightarrow> True | p # rest \<Rightarrow> p \<noteq> None)"

section \<open>physics.js: data\<close>

text \<open>A curve as the physics reads it: only its \<open>points\<close> field is used.\<close>

record curve =
  points :: polyline

text \<open>The world rectangle \<open>{xMin, xMax, yMin, yMax}\<close>.\<close>

record bounds =
  xMin :: real
  xMax :: real
  yMin :: real
  yMax :: real

text \<open>
  \<open>class Ball\<close>: position, velocity, radius \<open>r\<close>, the \<open>collected\<close> flag, and the two fields
  added later by the code: \<open>collectionTime\<close> (absent until set) and \<open>_oob\<close> (absent, hence
  falsy, until set).
\<close>

record ball =
  x :: real
  y :: real
  vx :: real
  vy :: real
  r :: real
  collected :: bool
  collectionTime :: "real option"
  oob :: bool

section \<open>utils.js\<close>

definition clamp :: "real \<Rightarrow> real \<Rightarrow> real \<Rightarrow> real" where
  "clamp v mn mx = max mn (min mx v)"

text \<open>The result \<open>{x, y, t}\<close> of \<open>closestPointOnSegment\<close>.\<close>

record cpoint =
  qx :: real
  qy :: real
  qt :: real

definition closestPointOnSegment ::
  "real \<Rightarrow> real \<Rightarrow> real \<Rightarrow> real \<Rightarrow> real \<Rightarrow> real \<Rightarrow> cpoint" where
  "closestPointOnSegment px py ax ay bx by =
     (let abx = bx - ax; aby = by - ay;
          apx = px - ax; apy = py - ay;
          ab2 = abx * abx + aby * aby;
          t = (if ab2 > 0 then (apx * abx + apy * aby) / ab2 else 0);
          t = clamp t 0 1
      in \<lparr>qx = ax + t * abx, qy = ay + t * aby, qt = t\<rparr>)"

text \<open>\<open>normalize\<close> of utils.js (the name is taken in HOL).\<close>

definition normalize_vec :: "real \<Rightarrow> real \<Rightarrow> real \<times> real" where
  "normalize_vec a b =
     (let m = hypot a b in if m = 0 then (0, 0) else (a / m, b / m))"

section \<open>physics.js: updateBalls\<close>

text \<open>The \<open>best\<close> object \<open>{a, c, q, dist, tx, ty, nx, ny}\<close>.\<close>

record contact =
  seg_a :: point
  seg_c :: point
  q :: cpoint
  dist :: real
  tx :: real
  ty :: real
  nx :: real
  ny :: real

text \<open>The exit test of lines 28-33.\<close>

definition exitedBounds :: "ball \<Rightarrow> bounds \<Rightarrow> bool" where
  "exitedBounds b bnd \<longleftrightarrow>
     (ball.x b + r b) < xMin bnd \<or>
     (ball.x b - r b) > xMax bnd \<or>
     (ball.y b + r b) < yMin bnd \<or>
     (ball.y b - r b) > yMax bnd"

text \<open>The broad-phase rejection of lines 47-51: true when the segment is skipped.\<close>

definition broadPhaseReject :: "ball \<Rightarrow> point \<Rightarrow> point \<Rightarrow> bool" where
  "broadPhaseReject b a c =
     (let minx = min (point.x a) (point.x c) - r b - 0.05;
          maxx = max (point.x a) (point.x c) + r b + 0.05;
          miny = min (point.y a) (point.y c) - r b - 0.05;
          maxy = max (point.y a) (point.y c) + r b + 0.05
      in ball.x b < minx \<or> ball.x b > maxx \<or> ball.y b < miny \<or> ball.y b > maxy)"

text \<open>
  Lines 53-66, the exact test on one segment: \<open>Some\<close> of the new value of \<open>best\<close> when
  the closest point is within \<open>r + 0.02\<close>, \<open>None\<close> when \<open>best\<close> is left as it is.
\<close>

definition narrowPhase :: "ball \<Rightarrow> point \<Rightarrow> point \<Rightarrow> contact option" where
  "narrowPhase b a c =
     (let q = closestPointOnSegment (ball.x b) (ball.y b)
                (point.x a) (point.y a) (point.x c) (point.y c);
          dx = ball.x b - qx q;
          dy = ball.y b - qy q;
          dist = hypot dx dy
      in if dist \<le> r b + 0.02 then
           (let sx = point.x c - point.x a; sy = point.y c - point.y a;
                tnorm = normalize_vec sx sy;
                guessN = normalize_vec (- snd tnorm) (fst tnorm);
                n = (if dx * fst guessN + dy * snd guessN \<ge> 0
                     then (fst guessN, snd guessN)
                     else (- fst guessN, - snd guessN))
            in Some \<lparr>seg_a = a, seg_c = c, q = q, dist = dist,
                      tx = fst tnorm, ty = snd tnorm, nx = fst n, ny = snd n\<rparr>)
         else None)"

text \<open>The body of the inner loop for one index \<open>i\<close> (lines 43-66), on \<open>a = pts[i]\<close>, \<open>c = pts[i+1]\<close>.\<close>

definition segmentStep :: "ball \<Rightarrow> point option \<Rightarrow> point option \<Rightarrow> contact option \<Rightarrow> contact option" where
  "segmentStep b a c best =
     (case (a, c) of
        (Some a', Some c') \<Rightarrow>
          if broadPhaseReject b a' c' then best
          else (case narrowPhase b a' c' of Some k \<Rightarrow> Some k | None \<Rightarrow> best)
      | _ \<Rightarrow> best)"

text \<open>The inner loop \<open>for (i = 0; i < pts.length - 1; i++)\<close> over adjacent entries.\<close>

fun scanSegments :: "ball \<Rightarrow> polyline \<Rightarrow> contact option \<Rightarrow> contact option" where
  "scanSegments b (a # c # rest) best = scanSegments b (c # rest) (segmentStep b a c best)"
| "scanSegments b pts best = best"

text \<open>The outer loop \<open>for (const curve of curves)\<close>.\<close>

fun scanCurves :: "ball \<Rightarrow> curve list \<Rightarrow> contact option \<Rightarrow> contact option" where
  "scanCurves b [] best = best"
| "scanCurves b (cv # cvs) best = scanCurves b cvs (scanSegments b (points cv) best)"

text \<open>Lines 39-68: \<open>best\<close> starts as \<open>null\<close>.\<close>

definition findBest :: "ball \<Rightarrow> curve list \<Rightarrow> contact option" where
  "findBest b curves = scanCurves b curves None"

text \<open>Lines 73-82: the snap to the surface.\<close>

definition snapToSurface :: "ball \<Rightarrow> contact \<Rightarrow> ball" where
  "snapToSurface b best =
     (let penetration = (r b - dist best) + 0.0001
      in if penetration > 0 then
           b\<lparr>ball.x := ball.x b + nx best * penetration,
             ball.y := ball.y b + ny best * penetration\<rparr>
         else
           b\<lparr>ball.x := qx (q best) + nx best * (r b + 0.0001),
             ball.y := qy (q best) + ny best * (r b + 0.0001)\<rparr>)"

text \<open>Lines 84-99: tangential velocity, gravity along the tangent, friction, integration.\<close>

definition slide :: "ball \<Rightarrow> contact \<Rightarrow> real \<Rightarrow> real \<Rightarrow> ball" where
  "slide b best dt gravity =
     (let vt = vx b * tx best + vy b * ty best;
          gx = 0; gy = gravity;
          gt = gx * tx best + gy * ty best;
          newVt = vt + gt * dt;
          newVt = newVt * 0.995;
          b = b\<lparr>vx := newVt * tx best, vy := newVt * ty best\<rparr>
      in b\<lparr>ball.x := ball.x b + vx b * dt, ball.y := ball.y b + vy b * dt\<rparr>)"

text \<open>The body of the loop over the balls (lines 18-104) for one ball.\<close>

definition updateBall :: "real \<Rightarrow> real \<Rightarrow> bounds \<Rightarrow> curve list \<Rightarrow> ball \<Rightarrow> ball" where
  "updateBall dt gravity bnd curves b0 =
     (let b = b0\<lparr>vy := vy b0 + gravity * dt\<rparr>
      in if exitedBounds b bnd then b\<lparr>oob := True\<rparr>
         else (case findBest b curves of
                 Some best \<Rightarrow> slide (snapToSurface b best) best dt gravity
               | None \<Rightarrow> b\<lparr>ball.x := ball.x b + vx b * dt, ball.y := ball.y b + vy b * dt\<rparr>))"

definition updateBalls :: "ball list \<Rightarrow> real \<Rightarrow> real \<Rightarrow> bounds \<Rightarrow> curve list \<Rightarrow> ball list" where
  "updateBalls balls dt gravity bnd curves = map (updateBall dt gravity bnd curves) balls"

text \<open>The distance \<open>dist\<close> of lines 53-56, from the ball centre to the closest point of segment \<open>a c\<close>.\<close>

definition contactDistance :: "ball \<Rightarrow> point \<Rightarrow> point \<Rightarrow> real" where
  "contactDistance b a c =
     (let q = closestPointOnSegment (ball.x b) (ball.y b)
                (point.x a) (point.y a) (point.x c) (point.y c)
      in hypot (ball.x b - qx q) (ball.y b - qy q))"

text \<open>The test \<open>dist <= b.r + 0.02\<close> of line 57 on a segment given as a pair.\<close>

definition inContactRange :: "ball \<Rightarrow> point \<times> point \<Rightarrow> bool" where
  "inContactRange b s \<longleftrightarrow> contactDistance b (fst s) (snd s) \<le> r b + 0.02"

subsection \<open>Selection by the exact distance test alone\<close>

text \<open>
  The same loops with the broad-phase rejection left out: the reference against which
  the broad phase is compared.
\<close>

definition segmentStepExact :: "ball \<Rightarrow> point option \<Rightarrow> point option \<Rightarrow> contact option \<Rightarrow> contact option" where
  "segmentStepExact b a c best =
     (case (a, c) of
        (Some a', Some c') \<Rightarrow> (case narrowPhase b a' c' of Some k \<Rightarrow> Some k | None \<Rightarrow> best)
      | _ \<Rightarrow> best)"

fun scanSegmentsExact :: "ball \<Rightarrow> polyline \<Rightarrow> contact option \<Rightarrow> contact option" where
  "scanSegmentsExact b (a # c # rest) best =
     scanSegmentsExact b (c # rest) (segmentStepExact b a c best)"
| "scanSegmentsExact b pts best = best"

fun scanCurvesExact :: "ball \<Rightarrow> curve list \<Rightarrow> contact option \<Rightarrow> contact option" where
  "scanCurvesExact b [] best = best"
| "scanCurvesExact b (cv # cvs) best = scanCurvesExact b cvs (scanSegmentsExact b (points cv) best)"

definition findBestExact :: "ball \<Rightarrow> curve list \<Rightarrow> contact option" where
  "findBestExact b curves = scanCurvesExact b curves None"

subsection \<open>The segments in iteration order\<close>

text \<open>
  The pairs \<open>(pts[i], pts[i+1])\<close> with both entries present, in the order of the index
  \<open>i\<close>; \<open>allSegments\<close> lists them curve after curve.
\<close>

fun segmentsOf :: "polyline \<Rightarrow> (point \<times> point) list" where
  "segmentsOf (a # c # rest) =
     (case (a, c) of (Some a', Some c') \<Rightarrow> [(a', c')] | _ \<Rightarrow> []) @ segmentsOf (c # rest)"
| "segmentsOf pts = []"

definition allSegments :: "curve list \<Rightarrow> (point \<times> point) list" where
  "allSegments curves = concat (map (\<lambda>cv. segmentsOf (points cv)) curves)"

text \<open>The contact built from the last segment of a list that passes the distance test.\<close>

definition lastInRange :: "ball \<Rightarrow> (point \<times> point) list \<Rightarrow> contact option" where
  "lastInRange b segs =
     (let qs = filter (inContactRange b) segs
      in if qs = [] then None else narrowPhase b (fst (last qs)) (snd (last qs)))"

section \<open>physics.js: checkStarCollection\<close>

text \<open>
  A star \<open>{x, y, collected}\<close> as the game creates it, with the two fields the collection
  adds: \<open>collectedTime\<close> and \<open>collectionScale\<close> (absent until set).
\<close>

record star =
  x :: real
  y :: real
  collected :: bool
  collectedTime :: "real option"
  collectionScale :: "real option"

text \<open>
  The state of one call: the balls and stars as mutated so far, the two results
  \<open>count\<close> and \<open>newlyCollected\<close>, and the number of readings of \<open>performance.now()\<close>
  taken so far. The clock is a function \<open>now\<close> from the number of the reading to the time
  read.
\<close>

record collection =
  balls_of :: "ball list"
  stars_of :: "star list"
  count :: nat
  newlyCollected :: bool
  reads :: nat

text \<open>
  The inner loop \<open>for (const b of balls)\<close> for one star \<open>s\<close> (lines 118-138): the balls and
  the star as mutated, whether a ball was in range (\<open>collectedCount++; break\<close>), whether
  the star was newly collected, and the number of clock readings.
\<close>

fun scanBalls ::
  "(nat \<Rightarrow> real) \<Rightarrow> real \<Rightarrow> star \<Rightarrow> ball list \<Rightarrow> nat \<Rightarrow> ball list \<times> star \<times> bool \<times> bool \<times> nat" where
  "scanBalls now radius s [] n = ([], s, False, False, n)"
| "scanBalls now radius s (b # bs) n =
     (let d = hypot (ball.x b - star.x s) (ball.y b - star.y s)
      in if d \<le> (r b + radius) then
           (if \<not> star.collected s then
              (b\<lparr>ball.collected := True, collectionTime := Some (now (n + 1))\<rparr> # bs,
               s\<lparr>star.collected := True, collectedTime := Some (now n),
                 collectionScale := Some 1.5\<rparr>,
               True, True, n + 2)
            else (b # bs, s, True, False, n))
         else (case scanBalls now radius s bs n of
                 (bs', s', hit, new, n') \<Rightarrow> (b # bs', s', hit, new, n')))"

text \<open>
  The outer loop \<open>for (const s of stars)\<close> (lines 112-139); \<open>done\<close> holds the stars
  already visited, in order.
\<close>

fun scanStars ::
  "(nat \<Rightarrow> real) \<Rightarrow> real \<Rightarrow> star list \<Rightarrow> star list \<Rightarrow> ball list \<Rightarrow> nat \<Rightarrow> bool \<Rightarrow> nat \<Rightarrow> collection" where
  "scanStars now radius done [] balls collectedCount new n =
     \<lparr>balls_of = balls, stars_of = done, count = collectedCount, newlyCollected = new, reads = n\<rparr>"
| "scanStars now radius done (s # ss) balls collectedCount new n =
     (if star.collected s then
        scanStars now radius (done @ [s]) ss balls (collectedCount + 1) new n
      else (case scanBalls now radius s balls n of
              (balls', s', hit, new', n') \<Rightarrow>
                scanStars now radius (done @ [s']) ss balls'
                  (if hit then collectedCount + 1 else collectedCount) (new \<or> new') n'))"

text \<open>
  \<open>checkStarCollection(balls, stars, radius)\<close>; the clock \<open>now\<close> and the number \<open>n\<close> of its
  readings before the call are made explicit.
\<close>

definition checkStarCollection ::
  "(nat \<Rightarrow> real) \<Rightarrow> nat \<Rightarrow> ball list \<Rightarrow> star list \<Rightarrow> real \<Rightarrow> collection" where
  "checkStarCollection now n balls stars radius = scanStars now radius [] stars balls 0 False n"

section \<open>Example scenes\<close>

text \<open>
  Concrete inputs on which the definitions are evaluated: a ball at rest as
  \<open>new Ball(x, y, radius)\<close> builds it, a polyline point, and the bounds of \<open>new World()\<close>.
\<close>

definition mkBall :: "real \<Rightarrow> real \<Rightarrow> real \<Rightarrow> ball" where
  "mkBall px py radius =
     \<lparr>ball.x = px, ball.y = py, vx = 0, vy = 0, r = radius,
      collected = False, collectionTime = None, oob = False\<rparr>"

definition pt :: "real \<Rightarrow> real \<Rightarrow> point" where
  "pt px py = \<lparr>point.x = px, point.y = py\<rparr>"

definition defaultWorld :: bounds where
  "defaultWorld = \<lparr>xMin = - 10, xMax = 10, yMin = - (15 / 2), yMax = 15 / 2\<rparr>"

definition mkStar :: "real \<Rightarrow> real \<Rightarrow> bool \<Rightarrow> star" where
  "mkStar px py c =
     \<lparr>star.x = px, star.y = py, star.collected = c, collectedTime = None, collectionScale = None\<rparr>"

text \<open>Two evaluators: \<open>x => x\<close>, and one that throws on negative inputs.\<close>

definition identityCurve :: "real \<Rightarrow> js_result" where
  "identityCurve t = Num t"

definition halfLine :: "real \<Rightarrow> js_result" where
  "halfLine t = (if t < 0 then Throws else Num t)"

text \<open>
  An engine that compiles the one function text \<open>2*x + 3\<close> in the variable \<open>x\<close>, to the
  function it denotes, and rejects every other text.
\<close>

definition linearEngine :: js_engine where
  "linearEngine =
     \<lparr>compileNumeric = (\<lambda>v body. if v = ''x'' \<and> body = ''2*x + 3''
                                 then Some (\<lambda>t. Num (2 * t + 3)) else None),
      compileCondition = (\<lambda>body. None)\<rparr>"

section \<open>Properties of the contact search\<close>

lemma hypot_ge_fst: "\<bar>a\<bar> \<le> hypot a b"
  unfolding hypot_def by (rule real_le_rsqrt) (simp add: power2_eq_square)

lemma hypot_ge_snd: "\<bar>b\<bar> \<le> hypot a b"
  unfolding hypot_def by (rule real_le_rsqrt) (simp add: power2_eq_square)

lemma hypot_zero_right: "hypot a 0 = \<bar>a\<bar>"
  by (simp add: hypot_def)

lemma hypot_zero_left: "hypot 0 b = \<bar>b\<bar>"
  by (simp add: hypot_def)

lemma clamp_unit: "0 \<le> clamp t 0 1 \<and> clamp t 0 1 \<le> 1"
  by (simp add: clamp_def)

lemma between_up:
  fixes a c u :: real
  shows "0 \<le> u \<Longrightarrow> u \<le> c - a \<Longrightarrow> min a c \<le> a + u \<and> a + u \<le> max a c"
  by (auto simp: min_def max_def)

lemma between_down:
  fixes a c u :: real
  shows "u \<le> 0 \<Longrightarrow> c - a \<le> u \<Longrightarrow> min a c \<le> a + u \<and> a + u \<le> max a c"
  by (auto simp: min_def max_def)

lemma convex_between:
  fixes a c t :: real
  assumes "0 \<le> t" "t \<le> 1"
  shows "min a c \<le> a + t * (c - a) \<and> a + t * (c - a) \<le> max a c"
proof (cases "a \<le> c")
  case True
  then have d: "0 \<le> c - a" by simp
  have "0 \<le> t * (c - a)"
    using assms(1) d by (rule mult_nonneg_nonneg)
  moreover have "t * (c - a) \<le> 1 * (c - a)"
    using assms(2) d by (rule mult_right_mono)
  ultimately show ?thesis by (intro between_up) (simp_all only: mult_1)
next
  case False
  then have d: "c - a \<le> 0" by simp
  have "t * (c - a) \<le> 0"
    using assms(1) d by (rule mult_nonneg_nonpos)
  moreover have "1 * (c - a) \<le> t * (c - a)"
    using assms(2) d by (rule mult_right_mono_neg)
  ultimately show ?thesis by (intro between_down) (simp_all only: mult_1)
qed

lemma closest_qx_between:
  "min ax cx \<le> qx (closestPointOnSegment px py ax ay cx cy) \<and>
   qx (closestPointOnSegment px py ax ay cx cy) \<le> max ax cx"
  unfolding closestPointOnSegment_def Let_def
  using convex_between [OF clamp_unit [THEN conjunct1] clamp_unit [THEN conjunct2]]
  by simp

lemma closest_qy_between:
  "min ay cy \<le> qy (closestPointOnSegment px py ax ay cx cy) \<and>
   qy (closestPointOnSegment px py ax ay cx cy) \<le> max ay cy"
  unfolding closestPointOnSegment_def Let_def
  using convex_between [OF clamp_unit [THEN conjunct1] clamp_unit [THEN conjunct2]]
  by simp

lemma broad_phase_keeps_contacts:
  assumes "inContactRange b (a, c)"
  shows "\<not> broadPhaseReject b a c"
proof -
  define k where "k = closestPointOnSegment (ball.x b) (ball.y b)
                (point.x a) (point.y a) (point.x c) (point.y c)"
  have d: "hypot (ball.x b - qx k) (ball.y b - qy k) \<le> r b + 0.02"
    using assms by (simp add: inContactRange_def contactDistance_def k_def Let_def)
  have dx: "\<bar>ball.x b - qx k\<bar> \<le> r b + 0.02"
    using hypot_ge_fst [of "ball.x b - qx k" "ball.y b - qy k"] d by linarith
  have dy: "\<bar>ball.y b - qy k\<bar> \<le> r b + 0.02"
    using hypot_ge_snd [of "ball.y b - qy k" "ball.x b - qx k"] d by linarith
  have bx: "min (point.x a) (point.x c) \<le> qx k \<and> qx k \<le> max (point.x a) (point.x c)"
    unfolding k_def by (rule closest_qx_between)
  have by': "min (point.y a) (point.y c) \<le> qy k \<and> qy k \<le> max (point.y a) (point.y c)"
    unfolding k_def by (rule closest_qy_between)
  show ?thesis
    unfolding broadPhaseReject_def Let_def using dx dy bx by' by (simp add: power2_eq_square) linarith
qed

lemma narrowPhase_Some_iff:
  "(\<exists>k. narrowPhase b a c = Some k) \<longleftrightarrow> inContactRange b (a, c)"
  by (simp add: narrowPhase_def inContactRange_def contactDistance_def Let_def)

lemma narrowPhase_None_iff:
  "narrowPhase b a c = None \<longleftrightarrow> \<not> inContactRange b (a, c)"
  by (simp add: narrowPhase_def inContactRange_def contactDistance_def Let_def)

lemma segmentStep_exact: "segmentStep b a c best = segmentStepExact b a c best"
proof (cases a)
  case None
  then show ?thesis by (simp add: segmentStep_def segmentStepExact_def)
next
  case (Some a')
  show ?thesis
  proof (cases c)
    case None
    with Some show ?thesis by (simp add: segmentStep_def segmentStepExact_def)
  next
    case (Some c')
    show ?thesis
    proof (cases "broadPhaseReject b a' c'")
      case True
      then have "\<not> inContactRange b (a', c')"
        using broad_phase_keeps_contacts by blast
      then have "narrowPhase b a' c' = None"
        by (simp add: narrowPhase_None_iff)
      with True \<open>a = Some a'\<close> Some show ?thesis
        by (simp add: segmentStep_def segmentStepExact_def)
    next
      case False
      with \<open>a = Some a'\<close> Some show ?thesis
        by (simp add: segmentStep_def segmentStepExact_def)
    qed
  qed
qed

lemma scanSegments_exact: "scanSegments b pts best = scanSegmentsExact b pts best"
  by (induction b pts best rule: scanSegments.induct) (simp_all add: segmentStep_exact)

lemma scanCurves_exact: "scanCurves b cvs best = scanCurvesExact b cvs best"
  by (induction cvs arbitrary: best) (simp_all add: scanSegments_exact)

lemma lastInRange_Nil: "lastInRange b [] = None"
  by (simp add: lastInRange_def)

lemma lastInRange_single: "lastInRange b [(a, c)] = narrowPhase b a c"
proof (cases "inContactRange b (a, c)")
  case True
  then show ?thesis by (simp add: lastInRange_def)
next
  case False
  then have "narrowPhase b a c = None" by (simp add: narrowPhase_None_iff)
  with False show ?thesis by (simp add: lastInRange_def)
qed

lemma lastInRange_Some:
  "filter (inContactRange b) segs \<noteq> [] \<Longrightarrow> \<exists>k. lastInRange b segs = Some k"
proof -
  assume ne: "filter (inContactRange b) segs \<noteq> []"
  then have "last (filter (inContactRange b) segs) \<in> set (filter (inContactRange b) segs)"
    by (rule last_in_set)
  then have "inContactRange b (last (filter (inContactRange b) segs))" by simp
  then have "\<exists>k. narrowPhase b (fst (last (filter (inContactRange b) segs)))
                (snd (last (filter (inContactRange b) segs))) = Some k"
    by (simp only: narrowPhase_Some_iff prod.collapse)
  with ne show ?thesis by (simp add: lastInRange_def Let_def)
qed

lemma lastInRange_append:
  "lastInRange b (xs @ ys) =
     (case lastInRange b ys of None \<Rightarrow> lastInRange b xs | Some k \<Rightarrow> Some k)"
proof (cases "filter (inContactRange b) ys = []")
  case True
  then show ?thesis by (simp add: lastInRange_def Let_def)
next
  case False
  then obtain k where k: "lastInRange b ys = Some k"
    using lastInRange_Some by blast
  from False have "lastInRange b (xs @ ys) = lastInRange b ys"
    by (simp add: lastInRange_def Let_def)
  with k show ?thesis by simp
qed

lemma segmentStepExact_last:
  "segmentStepExact b a c best =
     (case lastInRange b (case (a, c) of (Some a', Some c') \<Rightarrow> [(a', c')] | _ \<Rightarrow> []) of
        None \<Rightarrow> best | Some k \<Rightarrow> Some k)"
  by (cases a; cases c) (simp_all add: segmentStepExact_def lastInRange_Nil lastInRange_single)

lemma scanSegmentsExact_last:
  "scanSegmentsExact b pts best =
     (case lastInRange b (segmentsOf pts) of None \<Rightarrow> best | Some k \<Rightarrow> Some k)"
proof (induction b pts best rule: scanSegmentsExact.induct)
  case (1 b a c rest best)
  have "scanSegmentsExact b (a # c # rest) best =
          scanSegmentsExact b (c # rest) (segmentStepExact b a c best)"
    by simp
  also have "\<dots> = (case lastInRange b (segmentsOf (c # rest)) of
                       None \<Rightarrow> segmentStepExact b a c best | Some k \<Rightarrow> Some k)"
    by (rule "1.IH")
  also have "\<dots> = (case lastInRange b (segmentsOf (a # c # rest)) of
                       None \<Rightarrow> best | Some k \<Rightarrow> Some k)"
    by (simp add: segmentStepExact_last lastInRange_append split: option.splits)
  finally show ?case .
qed (simp_all add: lastInRange_Nil)

lemma scanCurvesExact_last:
  "scanCurvesExact b cvs best =
     (case lastInRange b (allSegments cvs) of None \<Rightarrow> best | Some k \<Rightarrow> Some k)"
proof (induction cvs arbitrary: best)
  case Nil
  then show ?case by (simp add: allSegments_def lastInRange_Nil)
next
  case (Cons cv cvs)
  have "allSegments (cv # cvs) = segmentsOf (points cv) @ allSegments cvs"
    by (simp add: allSegments_def)
  then show ?case
    by (simp add: Cons.IH scanSegmentsExact_last lastInRange_append split: option.splits)
qed

lemma findBest_last: "findBest b curves = lastInRange b (allSegments curves)"
  by (simp add: findBest_def scanCurves_exact scanCurvesExact_last split: option.splits)

section \<open>Properties of a tick\<close>

subsection \<open>Evaluation on the example scenes\<close>


lemma contactDistance_floor:
  "contactDistance (mkBall 0 (1 / 5) (1 / 5)) (pt (- 1) 0) (pt 1 0) = (1 / 5)"
  by (simp add: contactDistance_def closestPointOnSegment_def clamp_def mkBall_def pt_def hypot_zero_left Let_def)


lemmas physics_eval =
  updateBalls_def updateBall_def exitedBounds_def findBest_def segmentStep_def
  broadPhaseReject_def narrowPhase_def closestPointOnSegment_def clamp_def
  normalize_vec_def hypot_zero_left hypot_zero_right snapToSurface_def slide_def Let_def
  mkBall_def pt_def defaultWorld_def

subsection \<open>The broad phase\<close>

text \<open>
  Claim C10. The broad-phase rejection is conservative: whenever the distance from the
  ball centre to the closest point of a segment is at most \<open>r + 0.02\<close>, the centre lies
  inside the segment's bounding box grown by \<open>r + 0.05\<close>, so the segment is not rejected;
  and the contact found by the loops with the broad phase is the contact found by the
  exact distance test alone.
\<close>

theorem broad_phase_conservative:
  "(contactDistance b a c \<le> r b + 0.02 \<longrightarrow> \<not> broadPhaseReject b a c) \<and>
   findBest b curves = findBestExact b curves"
proof
  show "contactDistance b a c \<le> r b + 0.02 \<longrightarrow> \<not> broadPhaseReject b a c"
    using broad_phase_keeps_contacts [of b a c]
    unfolding inContactRange_def fst_conv snd_conv by blast
  show "findBest b curves = findBestExact b curves"
    unfolding findBest_def findBestExact_def by (rule scanCurves_exact)
qed

text \<open>
  Claim C10 at a ball resting on a horizontal segment.
\<close>

theorem broad_phase_conservative_witness:
  "contactDistance (mkBall 0 (1 / 5) (1 / 5)) (pt (- 1) 0) (pt 1 0) \<le> r (mkBall 0 (1 / 5) (1 / 5)) + 0.02 \<and>
   \<not> broadPhaseReject (mkBall 0 (1 / 5) (1 / 5)) (pt (- 1) 0) (pt 1 0) \<and>
   findBest (mkBall 0 (1 / 5) (1 / 5)) [\<lparr>points = [Some (pt (- 1) 0), Some (pt 1 0)]\<rparr>] =
   findBestExact (mkBall 0 (1 / 5) (1 / 5)) [\<lparr>points = [Some (pt (- 1) 0), Some (pt 1 0)]\<rparr>]"
proof -
  have h: "contactDistance (mkBall 0 (1 / 5) (1 / 5)) (pt (- 1) 0) (pt 1 0) \<le> r (mkBall 0 (1 / 5) (1 / 5)) + 0.02"
    by (subst contactDistance_floor) (simp add: mkBall_def)
  show ?thesis
    using h broad_phase_conservative [of "mkBall 0 (1 / 5) (1 / 5)" "pt (- 1) 0" "pt 1 0" "[\<lparr>points = [Some (pt (- 1) 0), Some (pt 1 0)]\<rparr>]"]
    by blast
qed

subsection \<open>Which segment is chosen\<close>



subsection \<open>Balls outside the bounds\<close>

lemma updateBall_exited:
  assumes "exitedBounds b bnd"
  shows "updateBall dt gravity bnd curves b = b\<lparr>vy := vy b + gravity * dt, oob := True\<rparr>"
proof -
  have "exitedBounds (b\<lparr>vy := vy b + gravity * dt\<rparr>) bnd"
    using assms by (simp add: exitedBounds_def)
  then show ?thesis by (simp add: updateBall_def Let_def)
qed

text \<open>
  Claim C2, as the code has it. The claim says that a flagged ball keeps its position and
  velocity and that the bounds check precedes every other update. In the code the
  gravity update of \<open>vy\<close> (line 19) comes before the bounds check, and \<open>updateBalls\<close> never
  reads the flag: a ball beyond the bounds is flagged in a first tick, with \<open>vy\<close> already
  changed, and its \<open>vy\<close> changes again in the next tick.
\<close>

theorem oob_ball_velocity_changes:
  "updateBalls [mkBall 100 0 (1 / 5)] (1 / 10) (- 10) defaultWorld [] =
     [(mkBall 100 0 (1 / 5))\<lparr>vy := - 1, oob := True\<rparr>] \<and>
   updateBalls [(mkBall 100 0 (1 / 5))\<lparr>vy := - 1, oob := True\<rparr>] (1 / 10) (- 10) defaultWorld [] =
     [(mkBall 100 0 (1 / 5))\<lparr>vy := - 2, oob := True\<rparr>]"
  by (simp add: physics_eval)

text \<open>
  Claim C2, amended. For a ball that has left the bounds (the condition under which the
  flag is set), a tick with these bounds changes \<open>vy\<close> by \<open>gravity * dt\<close>, sets the flag and
  changes nothing else: position, \<open>vx\<close> and all other fields stay. The ball is then still
  outside the bounds, so the same holds for every later tick with these bounds.
\<close>

theorem exited_ball_update:
  assumes "i < length balls" and "exitedBounds (balls ! i) bnd"
  shows "updateBalls balls dt gravity bnd curves ! i =
           (balls ! i)\<lparr>vy := vy (balls ! i) + gravity * dt, oob := True\<rparr> \<and>
         exitedBounds (updateBalls balls dt gravity bnd curves ! i) bnd"
proof -
  have eq: "updateBalls balls dt gravity bnd curves ! i =
           (balls ! i)\<lparr>vy := vy (balls ! i) + gravity * dt, oob := True\<rparr>"
    using assms by (simp add: updateBalls_def updateBall_exited)
  moreover have "exitedBounds ((balls ! i)\<lparr>vy := vy (balls ! i) + gravity * dt, oob := True\<rparr>) bnd"
    using assms(2) by (simp add: exitedBounds_def)
  ultimately show ?thesis by simp
qed

text \<open>
  The amended claim C2 at a ball far to the right of the default world.
\<close>

theorem exited_ball_update_witness:
  "exitedBounds (mkBall 100 0 (1 / 5)) defaultWorld \<and>
   updateBalls [mkBall 100 0 (1 / 5)] (1 / 10) (- 10) defaultWorld [] ! 0 =
     (mkBall 100 0 (1 / 5))\<lparr>vy := - 1, oob := True\<rparr> \<and>
   exitedBounds (updateBalls [mkBall 100 0 (1 / 5)] (1 / 10) (- 10) defaultWorld [] ! 0) defaultWorld"
proof -
  have len: "0 < length [mkBall 100 0 (1 / 5)]" by simp
  have ex: "exitedBounds ([mkBall 100 0 (1 / 5)] ! 0) defaultWorld"
    by (simp add: exitedBounds_def mkBall_def defaultWorld_def)
  show ?thesis
    using ex exited_ball_update [OF len ex, of "1 / 10" "- 10" "[]"] by (auto simp: mkBall_def)
qed

subsection \<open>Vectors\<close>

lemma hypot_nonneg: "0 \<le> hypot a b"
  by (simp add: hypot_def)

lemma hypot_eq_0_iff: "hypot a b = 0 \<longleftrightarrow> a = 0 \<and> b = 0"
  by (simp add: hypot_def)

lemma hypot_square: "hypot a b * hypot a b = a * a + b * b"
  by (simp add: hypot_def)

lemma hypot_unit: "a * a + b * b = 1 \<Longrightarrow> hypot a b = 1"
  by (simp add: hypot_def)

lemma hypot_scale: "hypot (k * a) (k * b) = \<bar>k\<bar> * hypot a b"
proof -
  have "(k * a) * (k * a) + (k * b) * (k * b) = k\<^sup>2 * (a * a + b * b)"
    by (simp add: power2_eq_square algebra_simps)
  then show ?thesis
    by (simp add: hypot_def real_sqrt_mult)
qed

lemma normalize_vec_unit:
  assumes "a \<noteq> 0 \<or> b \<noteq> 0"
  shows "fst (normalize_vec a b) * fst (normalize_vec a b) +
         snd (normalize_vec a b) * snd (normalize_vec a b) = 1"
    and "fst (normalize_vec a b) * hypot a b = a"
    and "snd (normalize_vec a b) * hypot a b = b"
proof -
  have m: "hypot a b \<noteq> 0" using assms by (simp add: hypot_eq_0_iff)
  then have n: "normalize_vec a b = (a / hypot a b, b / hypot a b)"
    by (simp add: normalize_vec_def Let_def)
  have "(a / hypot a b) * (a / hypot a b) + (b / hypot a b) * (b / hypot a b) =
        (a * a + b * b) / (hypot a b * hypot a b)"
    by (simp add: add_divide_distrib)
  also have "\<dots> = 1" using m by (simp add: hypot_square [symmetric])
  finally show "fst (normalize_vec a b) * fst (normalize_vec a b) +
         snd (normalize_vec a b) * snd (normalize_vec a b) = 1"
    by (simp add: n)
  show "fst (normalize_vec a b) * hypot a b = a" using m by (simp add: n)
  show "snd (normalize_vec a b) * hypot a b = b" using m by (simp add: n)
qed

lemma normalize_vec_of_unit: "a * a + b * b = 1 \<Longrightarrow> normalize_vec a b = (a, b)"
  by (simp add: normalize_vec_def Let_def hypot_unit)

lemma normalize_vec_scaled:
  "\<exists>k. normalize_vec a b = (k * a, k * b)"
proof (cases "hypot a b = 0")
  case True
  then have "normalize_vec a b = (0 * a, 0 * b)" by (simp add: normalize_vec_def Let_def)
  then show ?thesis by blast
next
  case False
  then have "normalize_vec a b = ((1 / hypot a b) * a, (1 / hypot a b) * b)"
    by (simp add: normalize_vec_def Let_def)
  then show ?thesis by blast
qed

lemma perpendicular_decomposition:
  fixes dx dy tx ty :: real
  assumes unit: "tx * tx + ty * ty = 1" and perp: "dx * tx + dy * ty = 0"
  shows "dx = (dx * (- ty) + dy * tx) * (- ty)" and "dy = (dx * (- ty) + dy * tx) * tx"
proof -
  have "(dx * (- ty) + dy * tx) * (- ty) = dx * (tx * tx + ty * ty) - tx * (dx * tx + dy * ty)"
    by (simp add: algebra_simps)
  then show "dx = (dx * (- ty) + dy * tx) * (- ty)" by (simp add: unit perp)
  have "(dx * (- ty) + dy * tx) * tx = dy * (tx * tx + ty * ty) - ty * (dx * tx + dy * ty)"
    by (simp add: algebra_simps)
  then show "dy = (dx * (- ty) + dy * tx) * tx" by (simp add: unit perp)
qed

subsection \<open>The snap to the surface\<close>

text \<open>
  Claim C7, as the code has it. The claim says that after the snap the distance from the
  ball centre to the closest point of the segment is the radius exactly. The code adds
  \<open>1e-4\<close> to the penetration: a ball of radius \<open>1/5\<close> whose centre is \<open>1/10\<close> above a
  horizontal segment is moved to distance \<open>2001/10000\<close>.
\<close>

theorem snap_leaves_clearance:
  "narrowPhase (mkBall 0 (1 / 10) (1 / 5)) (pt (- 1) 0) (pt 1 0) =
     Some \<lparr>seg_a = pt (- 1) 0, seg_c = pt 1 0, q = \<lparr>qx = 0, qy = 0, qt = 1 / 2\<rparr>,
           dist = 1 / 10, tx = 1, ty = 0, nx = 0, ny = 1\<rparr> \<and>
   snapToSurface (mkBall 0 (1 / 10) (1 / 5))
     \<lparr>seg_a = pt (- 1) 0, seg_c = pt 1 0, q = \<lparr>qx = 0, qy = 0, qt = 1 / 2\<rparr>,
           dist = 1 / 10, tx = 1, ty = 0, nx = 0, ny = 1\<rparr> = mkBall 0 (2001 / 10000) (1 / 5) \<and>
   contactDistance (mkBall 0 (2001 / 10000) (1 / 5)) (pt (- 1) 0) (pt 1 0) = 2001 / 10000 \<and>
   contactDistance (mkBall 0 (2001 / 10000) (1 / 5)) (pt (- 1) 0) (pt 1 0) \<noteq>
     r (mkBall 0 (2001 / 10000) (1 / 5))"
  by (simp add: physics_eval contactDistance_def)

text \<open>
  Claim C7, amended. When a ball in contact penetrates a segment of non-zero length
  (\<open>dist < r\<close>) and the line from the closest point to the centre is perpendicular to the
  segment, then after the snap the distance from the centre to the closest point of the
  segment is \<open>r + 1e-4\<close>.
\<close>

theorem snap_restores_clearance:
  assumes np: "narrowPhase b a c = Some best"
    and pen: "dist best < r b"
    and nondeg: "point.x a \<noteq> point.x c \<or> point.y a \<noteq> point.y c"
    and perp: "(ball.x b - qx (q best)) * (point.x c - point.x a) +
               (ball.y b - qy (q best)) * (point.y c - point.y a) = 0"
  shows "contactDistance (snapToSurface b best) a c = r b + 0.0001"
proof -
  define sx where "sx = point.x c - point.x a"
  define sy where "sy = point.y c - point.y a"
  define Q where "Q = closestPointOnSegment (ball.x b) (ball.y b)
                        (point.x a) (point.y a) (point.x c) (point.y c)"
  define dx where "dx = ball.x b - qx Q"
  define dy where "dy = ball.y b - qy Q"
  define Tx where "Tx = fst (normalize_vec sx sy)"
  define Ty where "Ty = snd (normalize_vec sx sy)"
  define m where "m = hypot sx sy"
  define k where "k = dx * (- Ty) + dy * Tx"
  have s0: "sx \<noteq> 0 \<or> sy \<noteq> 0" using nondeg by (auto simp: sx_def sy_def)
  have unit: "Tx * Tx + Ty * Ty = 1"
    unfolding Tx_def Ty_def using s0 by (rule normalize_vec_unit(1))
  have Tm: "Tx * m = sx" "Ty * m = sy"
    unfolding Tx_def Ty_def m_def using s0 by (rule normalize_vec_unit(2,3))+
  have G: "normalize_vec (- Ty) Tx = (- Ty, Tx)"
    using unit by (intro normalize_vec_of_unit) (simp add: algebra_simps)
  have fields: "q best = Q" "dist best = hypot dx dy" "tx best = Tx" "ty best = Ty"
    "nx best = (if k \<ge> 0 then - Ty else Ty)" "ny best = (if k \<ge> 0 then Tx else - Tx)"
    using np unfolding narrowPhase_def Let_def Q_def [symmetric] dx_def [symmetric]
      dy_def [symmetric] sx_def [symmetric] sy_def [symmetric]
    by (auto simp: Tx_def [symmetric] Ty_def [symmetric] G k_def split: if_splits)
  have perpT: "dx * Tx + dy * Ty = 0"
  proof -
    have "(dx * Tx + dy * Ty) * m = dx * sx + dy * sy"
      unfolding Tm [symmetric] by (simp add: algebra_simps)
    also have "\<dots> = 0" using perp by (simp add: dx_def dy_def sx_def sy_def fields(1))
    finally have "(dx * Tx + dy * Ty) * m = 0" .
    moreover have "m \<noteq> 0" using s0 by (simp add: m_def hypot_eq_0_iff)
    ultimately show ?thesis by simp
  qed
  have dk: "dx = k * (- Ty)" "dy = k * Tx"
    unfolding k_def using unit perpT by (rule perpendicular_decomposition)+
  have "hypot dx dy = \<bar>k\<bar> * hypot (- Ty) Tx"
    by (subst dk(1), subst dk(2)) (rule hypot_scale)
  also have "hypot (- Ty) Tx = 1" using unit by (intro hypot_unit) (simp add: algebra_simps)
  finally have distk: "dist best = \<bar>k\<bar>" by (simp add: fields(2))
  have dn: "dx = dist best * nx best" "dy = dist best * ny best"
    using dk by (auto simp: distk fields(5,6))
  have nunit: "hypot (nx best) (ny best) = 1"
    using unit by (intro hypot_unit) (auto simp: fields(5,6) algebra_simps)
  have ns: "nx best * sx + ny best * sy = 0"
  proof -
    have "(nx best * sx + ny best * sy) = (nx best * Tx + ny best * Ty) * m"
      unfolding Tm [symmetric] by (simp add: algebra_simps)
    also have "nx best * Tx + ny best * Ty = 0" by (simp add: fields(5,6))
    finally show ?thesis by simp
  qed
  define p where "p = (r b - dist best) + 0.0001"
  have ppos: "p > 0" using pen by (simp add: p_def)
  have snap: "snapToSurface b best =
         b\<lparr>ball.x := ball.x b + nx best * p, ball.y := ball.y b + ny best * p\<rparr>"
    using ppos unfolding snapToSurface_def Let_def p_def by simp
  have proj: "(ball.x b + nx best * p - point.x a) * sx + (ball.y b + ny best * p - point.y a) * sy =
              (ball.x b - point.x a) * sx + (ball.y b - point.y a) * sy"
  proof -
    have "(ball.x b + nx best * p - point.x a) * sx + (ball.y b + ny best * p - point.y a) * sy =
          (ball.x b - point.x a) * sx + (ball.y b - point.y a) * sy + p * (nx best * sx + ny best * sy)"
      by (simp add: algebra_simps)
    then show ?thesis by (simp add: ns)
  qed
  have Q': "closestPointOnSegment (ball.x b + nx best * p) (ball.y b + ny best * p)
              (point.x a) (point.y a) (point.x c) (point.y c) = Q"
    unfolding closestPointOnSegment_def Let_def Q_def sx_def [symmetric] sy_def [symmetric]
    by (simp only: proj)
  have "contactDistance (snapToSurface b best) a c =
        hypot (ball.x b + nx best * p - qx Q) (ball.y b + ny best * p - qy Q)"
    unfolding snap contactDistance_def Let_def by (simp add: Q')
  also have "\<dots> = hypot ((dist best + p) * nx best) ((dist best + p) * ny best)"
  proof -
    have "ball.x b + nx best * p - qx Q = (dist best + p) * nx best"
      using dn(1) by (simp add: dx_def algebra_simps)
    moreover have "ball.y b + ny best * p - qy Q = (dist best + p) * ny best"
      using dn(2) by (simp add: dy_def algebra_simps)
    ultimately show ?thesis by simp
  qed
  also have "\<dots> = \<bar>dist best + p\<bar> * hypot (nx best) (ny best)"
    by (rule hypot_scale)
  also have "\<dots> = r b + 0.0001"
  proof -
    have "0 \<le> dist best" by (simp add: fields(2) hypot_nonneg)
    then have "\<bar>dist best + p\<bar> = dist best + p" using ppos by simp
    then show ?thesis by (simp add: nunit p_def)
  qed
  finally show ?thesis .
qed

text \<open>
  The amended claim C7 at the ball of the counterexample.
\<close>

theorem snap_restores_clearance_witness:
  "narrowPhase (mkBall 0 (1 / 10) (1 / 5)) (pt (- 1) 0) (pt 1 0) =
     Some \<lparr>seg_a = pt (- 1) 0, seg_c = pt 1 0, q = \<lparr>qx = 0, qy = 0, qt = 1 / 2\<rparr>,
           dist = 1 / 10, tx = 1, ty = 0, nx = 0, ny = 1\<rparr> \<and>
   contactDistance
     (snapToSurface (mkBall 0 (1 / 10) (1 / 5))
        \<lparr>seg_a = pt (- 1) 0, seg_c = pt 1 0, q = \<lparr>qx = 0, qy = 0, qt = 1 / 2\<rparr>,
         dist = 1 / 10, tx = 1, ty = 0, nx = 0, ny = 1\<rparr>)
     (pt (- 1) 0) (pt 1 0) = 1 / 5 + 1 / 10000"
proof -
  let ?b = "mkBall 0 (1 / 10) (1 / 5)"
  let ?k = "\<lparr>seg_a = pt (- 1) 0, seg_c = pt 1 0, q = \<lparr>qx = 0, qy = 0, qt = 1 / 2\<rparr>,
           dist = 1 / 10, tx = 1, ty = 0, nx = 0, ny = 1\<rparr>"
  have np: "narrowPhase ?b (pt (- 1) 0) (pt 1 0) = Some ?k"
    by (simp add: physics_eval)
  have pen: "dist ?k < r ?b" by (simp add: mkBall_def)
  have nondeg: "point.x (pt (- 1) 0) \<noteq> point.x (pt 1 0) \<or> point.y (pt (- 1) 0) \<noteq> point.y (pt 1 0)"
    by (simp add: pt_def)
  have perp: "(ball.x ?b - qx (q ?k)) * (point.x (pt 1 0) - point.x (pt (- 1) 0)) +
              (ball.y ?b - qy (q ?k)) * (point.y (pt 1 0) - point.y (pt (- 1) 0)) = 0"
    by (simp add: mkBall_def pt_def)
  show ?thesis
    using np snap_restores_clearance [OF np pen nondeg perp] by (simp add: mkBall_def)
qed

text \<open>
  The two conditions of the amended claim are needed. On a segment of length zero the
  normal is \<open>(0, 0)\<close> and the snap leaves the ball where it is.
\<close>

lemma snap_degenerate_segment:
  "narrowPhase (mkBall 0 (1 / 10) (1 / 5)) (pt 0 0) (pt 0 0) =
     Some \<lparr>seg_a = pt 0 0, seg_c = pt 0 0, q = \<lparr>qx = 0, qy = 0, qt = 0\<rparr>,
           dist = 1 / 10, tx = 0, ty = 0, nx = 0, ny = 0\<rparr> \<and>
   snapToSurface (mkBall 0 (1 / 10) (1 / 5))
     \<lparr>seg_a = pt 0 0, seg_c = pt 0 0, q = \<lparr>qx = 0, qy = 0, qt = 0\<rparr>,
      dist = 1 / 10, tx = 0, ty = 0, nx = 0, ny = 0\<rparr> = mkBall 0 (1 / 10) (1 / 5) \<and>
   contactDistance (mkBall 0 (1 / 10) (1 / 5)) (pt 0 0) (pt 0 0) = 1 / 10"
  by (simp add: physics_eval contactDistance_def)

text \<open>
  Past the end of a segment the offset from the closest point, here the end point
  \<open>(1, 0)\<close>, is not along the segment's normal, and the ball ends at another distance
  than \<open>r + 1e-4\<close>.
\<close>

lemma hypot_3_4: "hypot (3 / 100) (1 / 25) = 1 / 20"
  unfolding hypot_def by (rule real_sqrt_unique) (simp_all add: power2_eq_square)

lemma snap_at_endpoint_contact:
  "narrowPhase (mkBall (103 / 100) (1 / 25) (1 / 5)) (pt 0 0) (pt 1 0) =
     Some \<lparr>seg_a = pt 0 0, seg_c = pt 1 0, q = \<lparr>qx = 1, qy = 0, qt = 1\<rparr>,
           dist = 1 / 20, tx = 1, ty = 0, nx = 0, ny = 1\<rparr>"
  by (simp add: narrowPhase_def closestPointOnSegment_def clamp_def normalize_vec_def
        hypot_zero_left hypot_zero_right hypot_3_4 Let_def mkBall_def pt_def)

lemma snap_at_endpoint:
  "snapToSurface (mkBall (103 / 100) (1 / 25) (1 / 5))
     \<lparr>seg_a = pt 0 0, seg_c = pt 1 0, q = \<lparr>qx = 1, qy = 0, qt = 1\<rparr>,
      dist = 1 / 20, tx = 1, ty = 0, nx = 0, ny = 1\<rparr> =
     mkBall (103 / 100) (1901 / 10000) (1 / 5) \<and>
   contactDistance (mkBall (103 / 100) (1901 / 10000) (1 / 5)) (pt 0 0) (pt 1 0) \<noteq>
     1 / 5 + 1 / 10000"
proof
  show "snapToSurface (mkBall (103 / 100) (1 / 25) (1 / 5))
     \<lparr>seg_a = pt 0 0, seg_c = pt 1 0, q = \<lparr>qx = 1, qy = 0, qt = 1\<rparr>,
      dist = 1 / 20, tx = 1, ty = 0, nx = 0, ny = 1\<rparr> =
     mkBall (103 / 100) (1901 / 10000) (1 / 5)"
    by (simp add: snapToSurface_def mkBall_def Let_def)
  have d: "contactDistance (mkBall (103 / 100) (1901 / 10000) (1 / 5)) (pt 0 0) (pt 1 0) =
        hypot (3 / 100) (1901 / 10000)"
    by (simp add: contactDistance_def closestPointOnSegment_def clamp_def Let_def mkBall_def pt_def)
  have "hypot (3 / 100) (1901 / 10000) \<noteq> 1 / 5 + 1 / 10000"
  proof
    assume e: "hypot (3 / 100) (1901 / 10000) = 1 / 5 + 1 / 10000"
    have "hypot (3 / 100) (1901 / 10000) * hypot (3 / 100) (1901 / 10000) =
               (1 / 5 + 1 / 10000) * (1 / 5 + 1 / 10000)"
      by (simp only: e)
    then show False by (simp only: hypot_square) simp
  qed
  with d show "contactDistance (mkBall (103 / 100) (1901 / 10000) (1 / 5)) (pt 0 0) (pt 1 0) \<noteq>
     1 / 5 + 1 / 10000" by simp
qed

subsection \<open>Sliding\<close>

lemma narrowPhase_normal_orthogonal:
  assumes "narrowPhase b a c = Some best"
  shows "tx best * nx best + ty best * ny best = 0"
proof -
  define T where "T = normalize_vec (point.x c - point.x a) (point.y c - point.y a)"
  obtain k where k: "normalize_vec (- snd T) (fst T) = (k * (- snd T), k * fst T)"
    using normalize_vec_scaled by blast
  have "(tx best = fst T \<and> ty best = snd T) \<and>
        ((nx best = k * (- snd T) \<and> ny best = k * fst T) \<or>
         (nx best = - (k * (- snd T)) \<and> ny best = - (k * fst T)))"
    using assms k unfolding narrowPhase_def Let_def T_def [symmetric]
    by (auto split: if_splits)
  then show ?thesis by (auto simp: algebra_simps)
qed

lemma findBest_is_narrowPhase:
  assumes "findBest b curves = Some best"
  shows "\<exists>a c. (a, c) \<in> set (allSegments curves) \<and> inContactRange b (a, c) \<and>
           narrowPhase b a c = Some best"
proof -
  define qs where "qs = filter (inContactRange b) (allSegments curves)"
  have l: "lastInRange b (allSegments curves) = Some best"
    using assms by (simp add: findBest_last)
  then have ne: "qs \<noteq> []"
    by (auto simp: lastInRange_def Let_def qs_def split: if_splits)
  with l have np: "narrowPhase b (fst (last qs)) (snd (last qs)) = Some best"
    by (simp add: lastInRange_def Let_def qs_def)
  from ne have "last qs \<in> set qs" by (rule last_in_set)
  then have "(fst (last qs), snd (last qs)) \<in> set (allSegments curves) \<and>
             inContactRange b (fst (last qs), snd (last qs))"
    by (simp add: qs_def)
  with np show ?thesis by blast
qed

lemma slide_velocity:
  "vx (slide b best dt gravity) =
     ((vx b * tx best + vy b * ty best + gravity * ty best * dt) * 0.995) * tx best \<and>
   vy (slide b best dt gravity) =
     ((vx b * tx best + vy b * ty best + gravity * ty best * dt) * 0.995) * ty best"
  by (simp add: slide_def Let_def)

lemma snapToSurface_velocity:
  "vx (snapToSurface b best) = vx b \<and> vy (snapToSurface b best) = vy b \<and> r (snapToSurface b best) = r b"
  by (simp add: snapToSurface_def Let_def)

text \<open>
  The velocity after a tick of a ball in contact: it is a multiple of the tangent, it has
  no component along the contact normal, and, counted from the velocity before the tick,
  the tangential projection of \<open>gravity * dt\<close> enters twice: once through line 19, which
  adds \<open>gravity * dt\<close> to \<open>vy\<close> before the decomposition, and once through line 90.
\<close>

lemma updateBall_contact_velocity:
  assumes inb: "\<not> exitedBounds b bnd"
    and best: "findBest (b\<lparr>vy := vy b + gravity * dt\<rparr>) curves = Some best"
  shows "vx (updateBall dt gravity bnd curves b) =
           ((vx b * tx best + vy b * ty best + 2 * (gravity * ty best * dt)) * 0.995) * tx best"
    and "vy (updateBall dt gravity bnd curves b) =
           ((vx b * tx best + vy b * ty best + 2 * (gravity * ty best * dt)) * 0.995) * ty best"
    and "vx (updateBall dt gravity bnd curves b) * nx best +
         vy (updateBall dt gravity bnd curves b) * ny best = 0"
proof -
  have nb: "\<not> exitedBounds (b\<lparr>vy := vy b + gravity * dt\<rparr>) bnd"
    using inb by (simp add: exitedBounds_def)
  have u: "updateBall dt gravity bnd curves b =
        slide (snapToSurface (b\<lparr>vy := vy b + gravity * dt\<rparr>) best) best dt gravity"
    using nb best by (simp add: updateBall_def Let_def)
  show vx: "vx (updateBall dt gravity bnd curves b) =
           ((vx b * tx best + vy b * ty best + 2 * (gravity * ty best * dt)) * 0.995) * tx best"
    unfolding u by (simp add: slide_velocity snapToSurface_velocity algebra_simps)
  show vy: "vy (updateBall dt gravity bnd curves b) =
           ((vx b * tx best + vy b * ty best + 2 * (gravity * ty best * dt)) * 0.995) * ty best"
    unfolding u by (simp add: slide_velocity snapToSurface_velocity algebra_simps)
  obtain a c where "narrowPhase (b\<lparr>vy := vy b + gravity * dt\<rparr>) a c = Some best"
    using findBest_is_narrowPhase [OF best] by blast
  then have orth: "tx best * nx best + ty best * ny best = 0"
    by (rule narrowPhase_normal_orthogonal)
  have "\<And>k::real. k * tx best * nx best + k * ty best * ny best =
          k * (tx best * nx best + ty best * ny best)"
    by (simp add: algebra_simps)
  then show "vx (updateBall dt gravity bnd curves b) * nx best +
         vy (updateBall dt gravity bnd curves b) * ny best = 0"
    unfolding vx vy by (simp only: orth mult_zero_right)
qed

text \<open>
  Claim C1 at a ball at rest touching a vertical segment, \<open>gravity = -10\<close>, \<open>dt = 1/10\<close>.
  The tangent is \<open>(0, 1)\<close>, the old tangential speed is \<open>0\<close> and the tangential projection
  of gravity times \<open>dt\<close> is \<open>-1\<close>, so the claim gives the tangential speed
  \<open>(0 + (-1)) * 0.995 = -199/200\<close>. The code gives \<open>-199/100\<close>, twice that: the ball slides
  down the wall faster than the free fall of line 19 alone, \<open>vy = -1\<close>, would make it.
\<close>

theorem wall_contact_tick:
  "findBest ((mkBall (1 / 5) (1 / 2) (1 / 5))\<lparr>vy := - 1\<rparr>)
     [\<lparr>points = [Some (pt 0 0), Some (pt 0 1)]\<rparr>] =
     Some \<lparr>seg_a = pt 0 0, seg_c = pt 0 1, q = \<lparr>qx = 0, qy = 1 / 2, qt = 1 / 2\<rparr>,
           dist = 1 / 5, tx = 0, ty = 1, nx = 1, ny = 0\<rparr> \<and>
   updateBalls [mkBall (1 / 5) (1 / 2) (1 / 5)] (1 / 10) (- 10) defaultWorld
     [\<lparr>points = [Some (pt 0 0), Some (pt 0 1)]\<rparr>] =
   [(mkBall (1 / 5) (1 / 2) (1 / 5))\<lparr>ball.x := 2001 / 10000, ball.y := 301 / 1000,
       vx := 0, vy := - (199 / 100)\<rparr>]"
  by (simp add: physics_eval)

section \<open>Properties of the sampler\<close>

subsection \<open>The clean-up loop\<close>

lemma noCoincident_snoc_break: "noCoincident (out @ [None]) = noCoincident out"
  by (induction out rule: noCoincident.induct) simp_all

lemma noCoincident_pair:
  "noCoincident [p, Some b] \<longleftrightarrow>
     (case p of None \<Rightarrow> True
      | Some a \<Rightarrow> hypot (point.x b - point.x a) (point.y b - point.y a) > 0.000000001)"
  by (cases p) simp_all

lemma noDoubleBreak_pair: "noDoubleBreak [p, None] \<longleftrightarrow> p \<noteq> None"
  by (cases p) simp_all

lemma noCoincident_snoc_point:
  "noCoincident (out @ [Some b]) \<longleftrightarrow>
     noCoincident out \<and>
     (out = [] \<or> (case last out of None \<Rightarrow> True
                   | Some a \<Rightarrow> hypot (point.x b - point.x a) (point.y b - point.y a) > 0.000000001))"
  by (induction out rule: noCoincident.induct) (auto simp: noCoincident_pair)

lemma noDoubleBreak_snoc_point: "noDoubleBreak (out @ [Some b]) = noDoubleBreak out"
  by (induction out rule: noDoubleBreak.induct) simp_all

lemma noDoubleBreak_snoc_break:
  "noDoubleBreak (out @ [None]) \<longleftrightarrow> noDoubleBreak out \<and> (out = [] \<or> last out \<noteq> None)"
  by (induction out rule: noDoubleBreak.induct) (auto simp: noDoubleBreak_pair)

lemma noLeadingBreak_snoc:
  "noLeadingBreak (out @ [p]) \<longleftrightarrow> (if out = [] then p \<noteq> None else noLeadingBreak out)"
  by (cases out) (simp_all add: noLeadingBreak_def)

lemma noLeadingBreak_small: "noLeadingBreak []" "noLeadingBreak [p] \<longleftrightarrow> p \<noteq> None"
  by (simp_all add: noLeadingBreak_def)

lemma cleanStep_clean:
  assumes "noCoincident out" "noDoubleBreak out" "noLeadingBreak out"
  shows "noCoincident (cleanStep out p) \<and> noDoubleBreak (cleanStep out p) \<and>
         noLeadingBreak (cleanStep out p)"
  using assms
  by (auto simp: cleanStep_def noCoincident_snoc_break noCoincident_snoc_point
        noDoubleBreak_snoc_point noDoubleBreak_snoc_break noLeadingBreak_snoc noLeadingBreak_small
        split: option.splits)

lemma cleanUp_clean:
  "noCoincident out \<Longrightarrow> noDoubleBreak out \<Longrightarrow> noLeadingBreak out \<Longrightarrow>
   noCoincident (cleanUp pts out) \<and> noDoubleBreak (cleanUp pts out) \<and>
   noLeadingBreak (cleanUp pts out)"
proof (induction pts arbitrary: out)
  case Nil
  then show ?case by simp
next
  case (Cons p pts)
  then show ?case using cleanStep_clean [of out p] by simp
qed

lemma cleanUp_Nil_clean:
  "noCoincident (cleanUp pts []) \<and> noDoubleBreak (cleanUp pts []) \<and> noLeadingBreak (cleanUp pts [])"
  by (rule cleanUp_clean) (simp_all add: noLeadingBreak_def)

lemma cleanStep_subset: "set (cleanStep out p) \<subseteq> insert p (set out)"
  by (auto simp: cleanStep_def split: option.splits if_splits)

lemma cleanUp_subset: "set (cleanUp pts out) \<subseteq> set pts \<union> set out"
proof (induction pts arbitrary: out)
  case Nil
  then show ?case by simp
next
  case (Cons p pts)
  show ?case using Cons.IH [of "cleanStep out p"] cleanStep_subset [of out p] by auto
qed

subsection \<open>Stored points are valid samples; the loops end\<close>

lemma safeEval_valid:
  "safeEval f cond t = Some v \<Longrightarrow> validSample f cond \<lparr>point.x = t, point.y = v\<rparr>"
  by (auto simp: safeEval_def validSample_def MAX_Y_def
        split: js_result.splits option.splits if_splits)

lemma allValid_Nil: "allValid f cond []"
  by (simp add: allValid_def)

lemma allValid_Cons:
  "allValid f cond (e # pts) \<longleftrightarrow>
     (case e of None \<Rightarrow> True | Some p \<Rightarrow> validSample f cond p) \<and> allValid f cond pts"
  by (cases e) (auto simp: allValid_def)

lemma allValid_append:
  "allValid f cond (pts @ pts') \<longleftrightarrow> allValid f cond pts \<and> allValid f cond pts'"
  by (auto simp: allValid_def)

lemma addBreak_valid: "allValid f cond pts \<Longrightarrow> allValid f cond (addBreak pts)"
  by (simp add: addBreak_def allValid_append allValid_Cons allValid_Nil)

lemma acceptSegment_valid:
  assumes "allValid f cond pts"
    and "validSample f cond \<lparr>point.x = x0, point.y = v0\<rparr>"
    and "validSample f cond \<lparr>point.x = xm, point.y = vm\<rparr>"
    and "validSample f cond \<lparr>point.x = x1, point.y = v1\<rparr>"
  shows "allValid f cond (acceptSegment x0 v0 xm vm x1 v1 pts)"
  using assms
  by (auto simp: acceptSegment_def Let_def allValid_append allValid_Cons allValid_Nil split: option.splits)

lemma subdivide_valid:
  "MAX_DEPTH - depth \<le> n \<Longrightarrow> y0 = safeEval f cond x0 \<Longrightarrow> y1 = safeEval f cond x1 \<Longrightarrow>
   allValid f cond pts \<Longrightarrow> allValid f cond (subdivide f cond x0 y0 x1 y1 depth pts)"
proof (induction n arbitrary: x0 y0 x1 y1 depth pts)
  case 0
  then have d: "depth \<ge> MAX_DEPTH" by simp
  show ?case
  proof (cases "y0 = None \<or> y1 = None \<or> safeEval f cond (0.5 * (x0 + x1)) = None")
    case True
    then show ?thesis
      using d 0 by (subst subdivide.simps) (auto simp: addBreak_valid)
  next
    case False
    then obtain v0 v1 vm where v: "y0 = Some v0" "y1 = Some v1"
        "safeEval f cond (0.5 * (x0 + x1)) = Some vm"
      by auto
    have "allValid f cond (acceptSegment x0 v0 (0.5 * (x0 + x1)) vm x1 v1 pts)"
      using 0 v by (intro acceptSegment_valid safeEval_valid) simp_all
    then show ?thesis
      using d v by (subst subdivide.simps) simp
  qed
next
  case (Suc n)
  let ?xm = "0.5 * (x0 + x1)"
  let ?ym = "safeEval f cond ?xm"
  have rec: "allValid f cond
      (subdivide f cond ?xm ?ym x1 y1 (depth + 1) (subdivide f cond x0 y0 ?xm ?ym (depth + 1) pts))"
    if "depth < MAX_DEPTH"
  proof -
    have m: "MAX_DEPTH - (depth + 1) \<le> n" using Suc.prems(1) that by simp
    have "allValid f cond (subdivide f cond x0 y0 ?xm ?ym (depth + 1) pts)"
      using m Suc.prems(2) refl Suc.prems(4) by (rule Suc.IH)
    with m refl Suc.prems(3) show ?thesis by (rule Suc.IH)
  qed
  show ?case
  proof (cases "y0 = None \<or> y1 = None \<or> ?ym = None")
    case True
    then show ?thesis
      using rec Suc.prems(4)
      by (subst subdivide.simps) (auto simp: addBreak_valid not_le)
  next
    case False
    then obtain v0 v1 vm where v: "y0 = Some v0" "y1 = Some v1" "?ym = Some vm"
      by auto
    have "allValid f cond (acceptSegment x0 v0 ?xm vm x1 v1 pts)"
      using Suc.prems v by (intro acceptSegment_valid safeEval_valid) simp_all
    then show ?thesis
      using v rec by (subst subdivide.simps) simp
  qed
qed

lemma subdivide_valid0:
  "y0 = safeEval f cond x0 \<Longrightarrow> y1 = safeEval f cond x1 \<Longrightarrow> allValid f cond pts \<Longrightarrow>
   allValid f cond (subdivide f cond x0 y0 x1 y1 0 pts)"
  using subdivide_valid [of 0 MAX_DEPTH] by simp

lemma sampleLoop_last:
  fixes xMax :: real
  assumes "x1 \<ge> xMax" "y0 = safeEval f cond x0" "allValid f cond pts"
  shows "\<exists>out. sampleLoop f cond coarse xMax x0 y0 x1 pts = Some out \<and> allValid f cond out"
  using assms by (subst sampleLoop.simps) (simp add: subdivide_valid0)

lemma sampleLoop_returns:
  fixes xMax :: real
  assumes "0 < coarse"
  shows "xMax - x1 \<le> real n * coarse \<Longrightarrow> y0 = safeEval f cond x0 \<Longrightarrow> allValid f cond pts \<Longrightarrow>
         \<exists>out. sampleLoop f cond coarse xMax x0 y0 x1 pts = Some out \<and> allValid f cond out"
proof (induction n arbitrary: x0 y0 x1 pts)
  case 0
  then have "x1 \<ge> xMax" by simp
  then show ?case using 0 by (intro sampleLoop_last)
next
  case (Suc n)
  show ?case
  proof (cases "x1 \<ge> xMax")
    case True
    then show ?thesis using Suc.prems by (intro sampleLoop_last)
  next
    case False
    have step: "xMax - min (x1 + coarse) xMax \<le> real n * coarse"
    proof (cases "x1 + coarse \<le> xMax")
      case True
      have "real (Suc n) * coarse = real n * coarse + coarse" by (simp add: algebra_simps)
      with Suc.prems(1) True show ?thesis by simp
    next
      case False
      then show ?thesis using assms by simp
    qed
    have v: "allValid f cond (subdivide f cond x0 y0 x1 (safeEval f cond x1) 0 pts)"
      using Suc.prems(2) refl Suc.prems(3) by (rule subdivide_valid0)
    have "\<exists>out. sampleLoop f cond coarse xMax x1 (safeEval f cond x1) (min (x1 + coarse) xMax)
             (subdivide f cond x0 y0 x1 (safeEval f cond x1) 0 pts) = Some out \<and> allValid f cond out"
      using step refl v by (rule Suc.IH)
    then show ?thesis
      using False Suc.prems(3) by (subst sampleLoop.simps) auto
  qed
qed

lemma cleanUp_valid: "allValid f cond pts \<Longrightarrow> allValid f cond (cleanUp pts [])"
  using cleanUp_subset [of pts "[]"] by (auto simp: allValid_def)

lemma sampleCurve_returns:
  fixes xMin xMax step :: real
  shows "\<exists>out. sampleCurve f xMin xMax step cond = Some out \<and> allValid f cond out \<and>
           noCoincident out \<and> noDoubleBreak out \<and> noLeadingBreak out"
proof -
  define coarse where "coarse = max step ((xMax - xMin) / 64)"
  define x1 where "x1 = min (xMin + coarse) xMax"
  have "\<exists>pts. sampleLoop f cond coarse xMax xMin (safeEval f cond xMin) x1 [] = Some pts \<and>
          allValid f cond pts"
  proof (cases "xMin < xMax")
    case True
    then have pos: "0 < coarse" by (simp add: coarse_def max_def)
    obtain n :: nat where "(xMax - x1) / coarse \<le> real n"
      using real_arch_simple by blast
    with pos have "xMax - x1 \<le> real n * coarse" by (simp add: pos_divide_le_eq)
    then show ?thesis using pos allValid_Nil by (intro sampleLoop_returns) simp_all
  next
    case False
    then have "xMax - xMin \<le> (xMax - xMin) / 64" by simp
    also have "\<dots> \<le> coarse" by (simp add: coarse_def)
    finally have "x1 \<ge> xMax" by (simp add: x1_def)
    then show ?thesis using allValid_Nil by (intro sampleLoop_last) simp_all
  qed
  then obtain pts where pts: "sampleLoop f cond coarse xMax xMin (safeEval f cond xMin) x1 [] = Some pts"
      "allValid f cond pts" by blast
  have "sampleCurve f xMin xMax step cond = Some (cleanUp pts [])"
    using pts(1) by (simp add: sampleCurve_def Let_def coarse_def x1_def)
  then show ?thesis
    using cleanUp_valid [OF pts(2)] cleanUp_Nil_clean [of pts] by simp
qed

subsection \<open>The same for sampleCurveY\<close>

lemma safeEvalY_valid:
  "safeEvalY g cond t = Some v \<Longrightarrow> validSampleY g cond \<lparr>point.x = v, point.y = t\<rparr>"
  by (auto simp: safeEvalY_def validSampleY_def MAX_X_def
        split: js_result.splits option.splits if_splits)

lemma allValidY_Nil: "allValidY g cond []"
  by (simp add: allValidY_def)

lemma allValidY_Cons:
  "allValidY g cond (e # pts) \<longleftrightarrow>
     (case e of None \<Rightarrow> True | Some p \<Rightarrow> validSampleY g cond p) \<and> allValidY g cond pts"
  by (cases e) (auto simp: allValidY_def)

lemma allValidY_append:
  "allValidY g cond (pts @ pts') \<longleftrightarrow> allValidY g cond pts \<and> allValidY g cond pts'"
  by (auto simp: allValidY_def)

lemma addBreakY_valid: "allValidY g cond pts \<Longrightarrow> allValidY g cond (addBreak pts)"
  by (simp add: addBreak_def allValidY_append allValidY_Cons allValidY_Nil)

lemma acceptSegmentY_valid:
  assumes "allValidY g cond pts"
    and "validSampleY g cond \<lparr>point.x = v0, point.y = x0\<rparr>"
    and "validSampleY g cond \<lparr>point.x = vm, point.y = xm\<rparr>"
    and "validSampleY g cond \<lparr>point.x = v1, point.y = x1\<rparr>"
  shows "allValidY g cond (acceptSegmentY x0 v0 xm vm x1 v1 pts)"
  using assms
  by (auto simp: acceptSegmentY_def Let_def allValidY_append allValidY_Cons allValidY_Nil split: option.splits)

lemma subdivideY_valid:
  "MAX_DEPTH - depth \<le> n \<Longrightarrow> y0 = safeEvalY g cond x0 \<Longrightarrow> y1 = safeEvalY g cond x1 \<Longrightarrow>
   allValidY g cond pts \<Longrightarrow> allValidY g cond (subdivideY g cond x0 y0 x1 y1 depth pts)"
proof (induction n arbitrary: x0 y0 x1 y1 depth pts)
  case 0
  then have d: "depth \<ge> MAX_DEPTH" by simp
  show ?case
  proof (cases "y0 = None \<or> y1 = None \<or> safeEvalY g cond (0.5 * (x0 + x1)) = None")
    case True
    then show ?thesis
      using d 0 by (subst subdivideY.simps) (auto simp: addBreakY_valid)
  next
    case False
    then obtain v0 v1 vm where v: "y0 = Some v0" "y1 = Some v1"
        "safeEvalY g cond (0.5 * (x0 + x1)) = Some vm"
      by auto
    have "allValidY g cond (acceptSegmentY x0 v0 (0.5 * (x0 + x1)) vm x1 v1 pts)"
      using 0 v by (intro acceptSegmentY_valid safeEvalY_valid) simp_all
    then show ?thesis
      using d v by (subst subdivideY.simps) simp
  qed
next
  case (Suc n)
  let ?xm = "0.5 * (x0 + x1)"
  let ?ym = "safeEvalY g cond ?xm"
  have rec: "allValidY g cond
      (subdivideY g cond ?xm ?ym x1 y1 (depth + 1) (subdivideY g cond x0 y0 ?xm ?ym (depth + 1) pts))"
    if "depth < MAX_DEPTH"
  proof -
    have m: "MAX_DEPTH - (depth + 1) \<le> n" using Suc.prems(1) that by simp
    have "allValidY g cond (subdivideY g cond x0 y0 ?xm ?ym (depth + 1) pts)"
      using m Suc.prems(2) refl Suc.prems(4) by (rule Suc.IH)
    with m refl Suc.prems(3) show ?thesis by (rule Suc.IH)
  qed
  show ?case
  proof (cases "y0 = None \<or> y1 = None \<or> ?ym = None")
    case True
    then show ?thesis
      using rec Suc.prems(4)
      by (subst subdivideY.simps) (auto simp: addBreakY_valid not_le)
  next
    case False
    then obtain v0 v1 vm where v: "y0 = Some v0" "y1 = Some v1" "?ym = Some vm"
      by auto
    have "allValidY g cond (acceptSegmentY x0 v0 ?xm vm x1 v1 pts)"
      using Suc.prems v by (intro acceptSegmentY_valid safeEvalY_valid) simp_all
    then show ?thesis
      using v rec by (subst subdivideY.simps) simp
  qed
qed

lemma subdivideY_valid0:
  "y0 = safeEvalY g cond x0 \<Longrightarrow> y1 = safeEvalY g cond x1 \<Longrightarrow> allValidY g cond pts \<Longrightarrow>
   allValidY g cond (subdivideY g cond x0 y0 x1 y1 0 pts)"
  using subdivideY_valid [of 0 MAX_DEPTH] by simp

lemma sampleLoopY_last:
  fixes xMax :: real
  assumes "x1 \<ge> xMax" "y0 = safeEvalY g cond x0" "allValidY g cond pts"
  shows "\<exists>out. sampleLoopY g cond coarse xMax x0 y0 x1 pts = Some out \<and> allValidY g cond out"
  using assms by (subst sampleLoopY.simps) (simp add: subdivideY_valid0)

lemma sampleLoopY_returns:
  fixes xMax :: real
  assumes "0 < coarse"
  shows "xMax - x1 \<le> real n * coarse \<Longrightarrow> y0 = safeEvalY g cond x0 \<Longrightarrow> allValidY g cond pts \<Longrightarrow>
         \<exists>out. sampleLoopY g cond coarse xMax x0 y0 x1 pts = Some out \<and> allValidY g cond out"
proof (induction n arbitrary: x0 y0 x1 pts)
  case 0
  then have "x1 \<ge> xMax" by simp
  then show ?case using 0 by (intro sampleLoopY_last)
next
  case (Suc n)
  show ?case
  proof (cases "x1 \<ge> xMax")
    case True
    then show ?thesis using Suc.prems by (intro sampleLoopY_last)
  next
    case False
    have step: "xMax - min (x1 + coarse) xMax \<le> real n * coarse"
    proof (cases "x1 + coarse \<le> xMax")
      case True
      have "real (Suc n) * coarse = real n * coarse + coarse" by (simp add: algebra_simps)
      with Suc.prems(1) True show ?thesis by simp
    next
      case False
      then show ?thesis using assms by simp
    qed
    have v: "allValidY g cond (subdivideY g cond x0 y0 x1 (safeEvalY g cond x1) 0 pts)"
      using Suc.prems(2) refl Suc.prems(3) by (rule subdivideY_valid0)
    have "\<exists>out. sampleLoopY g cond coarse xMax x1 (safeEvalY g cond x1) (min (x1 + coarse) xMax)
             (subdivideY g cond x0 y0 x1 (safeEvalY g cond x1) 0 pts) = Some out \<and> allValidY g cond out"
      using step refl v by (rule Suc.IH)
    then show ?thesis
      using False Suc.prems(3) by (subst sampleLoopY.simps) auto
  qed
qed

lemma cleanUpY_valid: "allValidY g cond pts \<Longrightarrow> allValidY g cond (cleanUp pts [])"
  using cleanUp_subset [of pts "[]"] by (auto simp: allValidY_def)

lemma sampleCurveY_returns:
  fixes xMin xMax step :: real
  shows "\<exists>out. sampleCurveY g xMin xMax step cond = Some out \<and> allValidY g cond out \<and>
           noCoincident out \<and> noDoubleBreak out \<and> noLeadingBreak out"
proof -
  define coarse where "coarse = max step ((xMax - xMin) / 64)"
  define x1 where "x1 = min (xMin + coarse) xMax"
  have "\<exists>pts. sampleLoopY g cond coarse xMax xMin (safeEvalY g cond xMin) x1 [] = Some pts \<and>
          allValidY g cond pts"
  proof (cases "xMin < xMax")
    case True
    then have pos: "0 < coarse" by (simp add: coarse_def max_def)
    obtain n :: nat where "(xMax - x1) / coarse \<le> real n"
      using real_arch_simple by blast
    with pos have "xMax - x1 \<le> real n * coarse" by (simp add: pos_divide_le_eq)
    then show ?thesis using pos allValidY_Nil by (intro sampleLoopY_returns) simp_all
  next
    case False
    then have "xMax - xMin \<le> (xMax - xMin) / 64" by simp
    also have "\<dots> \<le> coarse" by (simp add: coarse_def)
    finally have "x1 \<ge> xMax" by (simp add: x1_def)
    then show ?thesis using allValidY_Nil by (intro sampleLoopY_last) simp_all
  qed
  then obtain pts where pts: "sampleLoopY g cond coarse xMax xMin (safeEvalY g cond xMin) x1 [] = Some pts"
      "allValidY g cond pts" by blast
  have "sampleCurveY g xMin xMax step cond = Some (cleanUp pts [])"
    using pts(1) by (simp add: sampleCurveY_def Let_def coarse_def x1_def)
  then show ?thesis
    using cleanUpY_valid [OF pts(2)] cleanUp_Nil_clean [of pts] by simp
qed

subsection \<open>Evaluation on the example evaluators\<close>

lemma hypot_gt_fst: "0 < c \<Longrightarrow> 1 < \<bar>a\<bar> * c \<Longrightarrow> 1 < hypot a b * c"
proof -
  assume c: "0 < c" and a: "1 < \<bar>a\<bar> * c"
  have "\<bar>a\<bar> * c \<le> hypot a b * c"
    using hypot_ge_fst [of a b] c by (intro mult_right_mono) simp_all
  with a show ?thesis by linarith
qed

lemmas sampler_eval =
  sampleCurve_def sampleCurveY_def safeEval_def safeEvalY_def MAX_Y_def MAX_X_def MAX_DEPTH_def
  TOL_def needsRefinement_def needsRefinementY_def acceptSegment_def acceptSegmentY_def
  addBreak_def cleanStep_def hypot_gt_fst Let_def

lemma sample_identity:
  "sampleCurve identityCurve 0 1 1 None =
     Some [Some \<lparr>point.x = 0, point.y = 0\<rparr>, Some \<lparr>point.x = 1 / 2, point.y = 1 / 2\<rparr>,
           Some \<lparr>point.x = 1, point.y = 1\<rparr>]"
  by (simp add: sampler_eval identityCurve_def sampleLoop.simps subdivide.simps)

lemma sampleY_identity:
  "sampleCurveY identityCurve 0 1 1 None =
     Some [Some \<lparr>point.x = 0, point.y = 0\<rparr>, Some \<lparr>point.x = 1 / 2, point.y = 1 / 2\<rparr>,
           Some \<lparr>point.x = 1, point.y = 1\<rparr>]"
  by (simp add: sampler_eval identityCurve_def sampleLoopY.simps subdivideY.simps)

lemma sample_halfLine:
  "sampleCurve halfLine (- 1) 1 1 None =
     Some [Some \<lparr>point.x = 0, point.y = 0\<rparr>, Some \<lparr>point.x = 1 / 2, point.y = 1 / 2\<rparr>,
           Some \<lparr>point.x = 1, point.y = 1\<rparr>]"
  by (simp add: sampler_eval halfLine_def sampleLoop.simps subdivide.simps)

subsection \<open>The claims on the sampler\<close>



text \<open>
  Claim C4. The polyline returned by \<open>sampleCurve\<close> and by \<open>sampleCurveY\<close> has no two adjacent
  points at distance \<open>1e-9\<close> or less, no two adjacent break markers, and no break marker
  in the first position.
\<close>

theorem sampled_polyline_clean:
  fixes xMin xMax step yMin yMax stepY :: real
  shows "(\<exists>out. sampleCurve f xMin xMax step cond = Some out \<and>
            noCoincident out \<and> noDoubleBreak out \<and> noLeadingBreak out) \<and>
         (\<exists>out. sampleCurveY g yMin yMax stepY condY = Some out \<and>
            noCoincident out \<and> noDoubleBreak out \<and> noLeadingBreak out)"
  using sampleCurve_returns [of f xMin xMax step cond]
    sampleCurveY_returns [of g yMin yMax stepY condY]
  by blast

text \<open>
  Claim C4 on the same inputs: the break that the throwing evaluator leaves at the
  start of the array is dropped.
\<close>

theorem sampled_polyline_clean_witness:
  "noCoincident [Some \<lparr>point.x = 0, point.y = 0\<rparr>, Some \<lparr>point.x = 1 / 2, point.y = 1 / 2\<rparr>,
           Some \<lparr>point.x = 1, point.y = 1\<rparr>] \<and>
   sampleCurve halfLine (- 1) 1 1 None =
     Some [Some \<lparr>point.x = 0, point.y = 0\<rparr>, Some \<lparr>point.x = 1 / 2, point.y = 1 / 2\<rparr>,
           Some \<lparr>point.x = 1, point.y = 1\<rparr>] \<and>
   sampleCurveY identityCurve 0 1 1 None =
     Some [Some \<lparr>point.x = 0, point.y = 0\<rparr>, Some \<lparr>point.x = 1 / 2, point.y = 1 / 2\<rparr>,
           Some \<lparr>point.x = 1, point.y = 1\<rparr>]"
  using sampled_polyline_clean [of halfLine "- 1" 1 1 None identityCurve 0 1 1 None]
  unfolding sample_halfLine sampleY_identity by simp

section \<open>Properties of the collection\<close>

lemma scanBalls_collected:
  "scanBalls now radius s bs n = (bs', s', hit, new, n') \<Longrightarrow>
     (star.collected s \<longrightarrow> s' = s) \<and>
     (star.collected s' \<longleftrightarrow> star.collected s \<or> hit) \<and>
     star.x s' = star.x s \<and> star.y s' = star.y s"
proof (induction bs arbitrary: bs' s' hit new n')
  case Nil
  then show ?case by auto
next
  case (Cons b bs)
  show ?case
  proof (cases "hypot (ball.x b - star.x s) (ball.y b - star.y s) \<le> r b + radius")
    case True
    with Cons.prems show ?thesis by (auto simp: Let_def split: if_splits)
  next
    case False
    obtain bs1 s1 hit1 new1 n1 where rec: "scanBalls now radius s bs n = (bs1, s1, hit1, new1, n1)"
      by (metis prod_cases5)
    with False Cons.prems have "s' = s1" "hit = hit1" by (simp_all add: Let_def)
    with Cons.IH [OF rec] show ?thesis by simp
  qed
qed

lemma scanStars_result:
  "\<exists>ss'. stars_of (scanStars now radius done ss balls c new n) = done @ ss' \<and>
         list_all2 (\<lambda>s s'. star.collected s \<longrightarrow> s' = s) ss ss' \<and>
         count (scanStars now radius done ss balls c new n) =
           c + length (filter star.collected ss')"
proof (induction ss arbitrary: "done" balls c new n)
  case Nil
  then show ?case by simp
next
  case (Cons s ss)
  show ?case
  proof (cases "star.collected s")
    case True
    obtain ss' where IH: "stars_of (scanStars now radius (done @ [s]) ss balls (c + 1) new n) = (done @ [s]) @ ss'"
      "list_all2 (\<lambda>s s'. star.collected s \<longrightarrow> s' = s) ss ss'"
      "count (scanStars now radius (done @ [s]) ss balls (c + 1) new n) = (c + 1) + length (filter star.collected ss')"
      using Cons.IH [of "done @ [s]" balls "c + 1" new n] by blast
    have "stars_of (scanStars now radius done (s # ss) balls c new n) = done @ (s # ss')"
      using True IH(1) by simp
    moreover have "list_all2 (\<lambda>s s'. star.collected s \<longrightarrow> s' = s) (s # ss) (s # ss')"
      using IH(2) by simp
    moreover have "count (scanStars now radius done (s # ss) balls c new n) =
        c + length (filter star.collected (s # ss'))"
      using True IH(3) by simp
    ultimately show ?thesis by blast
  next
    case False
    obtain balls' s' hit new' n' where sb: "scanBalls now radius s balls n = (balls', s', hit, new', n')"
      by (metis prod_cases5)
    have h: "star.collected s' \<longleftrightarrow> hit" using scanBalls_collected [OF sb] False by simp
    let ?c = "if hit then c + 1 else c"
    obtain ss' where IH: "stars_of (scanStars now radius (done @ [s']) ss balls' ?c (new \<or> new') n') = (done @ [s']) @ ss'"
      "list_all2 (\<lambda>s s'. star.collected s \<longrightarrow> s' = s) ss ss'"
      "count (scanStars now radius (done @ [s']) ss balls' ?c (new \<or> new') n') = ?c + length (filter star.collected ss')"
      using Cons.IH [of "done @ [s']" balls' ?c "new \<or> new'" n'] by blast
    have "stars_of (scanStars now radius done (s # ss) balls c new n) = done @ (s' # ss')"
      using False sb IH(1) by simp
    moreover have "list_all2 (\<lambda>s s'. star.collected s \<longrightarrow> s' = s) (s # ss) (s' # ss')"
      using IH(2) False by simp
    moreover have "count (scanStars now radius done (s # ss) balls c new n) =
        c + length (filter star.collected (s' # ss'))"
      using False sb IH(3) h by simp
    ultimately show ?thesis by blast
  qed
qed

text \<open>
  Claim C9. A call of \<open>checkStarCollection\<close> keeps the number of stars, leaves every star
  that was already collected exactly as it was (so it stays collected), wherever the
  balls are, and counts it: the count returned is the number of stars collected after
  the call, which is at least the number collected before.
\<close>

theorem collected_stays_collected:
  "length (stars_of (checkStarCollection now n balls stars radius)) = length stars \<and>
   (\<forall>i < length stars. star.collected (stars ! i) \<longrightarrow>
        stars_of (checkStarCollection now n balls stars radius) ! i = stars ! i \<and>
        star.collected (stars_of (checkStarCollection now n balls stars radius) ! i)) \<and>
   count (checkStarCollection now n balls stars radius) =
     length (filter star.collected (stars_of (checkStarCollection now n balls stars radius))) \<and>
   length (filter star.collected stars) \<le> count (checkStarCollection now n balls stars radius)"
proof -
  obtain ss' where r: "stars_of (checkStarCollection now n balls stars radius) = ss'"
      "list_all2 (\<lambda>s s'. star.collected s \<longrightarrow> s' = s) stars ss'"
      "count (checkStarCollection now n balls stars radius) = length (filter star.collected ss')"
    using scanStars_result [of now radius "[]" stars balls 0 False n]
    by (auto simp: checkStarCollection_def)
  have len: "length ss' = length stars" using r(2) by (simp add: list_all2_lengthD)
  have keep: "\<forall>i < length stars. star.collected (stars ! i) \<longrightarrow> ss' ! i = stars ! i"
    using r(2) by (simp add: list_all2_conv_all_nth)
  have mono: "length (filter star.collected stars) \<le> length (filter star.collected ss')"
    using r(2)
  proof (induction stars ss' rule: list_all2_induct)
    case Nil
    then show ?case by simp
  next
    case (Cons s ss s' ss')
    then show ?case by auto
  qed
  show ?thesis
    using len keep mono by (auto simp: r(1) r(3))
qed

text \<open>
  Claim C9 on a collected star far from the only ball, next to a star the ball
  collects.
\<close>

theorem collected_stays_collected_witness:
  "star.collected ([mkStar 5 0 True, mkStar 0 0 False] ! 0) \<and>
   stars_of (checkStarCollection real 0 [mkBall 0 0 (1 / 5)] [mkStar 5 0 True, mkStar 0 0 False] (3 / 10)) ! 0 =
     mkStar 5 0 True \<and>
   count (checkStarCollection real 0 [mkBall 0 0 (1 / 5)] [mkStar 5 0 True, mkStar 0 0 False] (3 / 10)) = 2"
proof -
  have c: "count (checkStarCollection real 0 [mkBall 0 0 (1 / 5)]
              [mkStar 5 0 True, mkStar 0 0 False] (3 / 10)) = 2"
    by (simp add: checkStarCollection_def mkStar_def mkBall_def hypot_zero_left)
  have s: "star.collected ([mkStar 5 0 True, mkStar 0 0 False] ! 0)"
    by (simp add: mkStar_def)
  show ?thesis
    using c s collected_stays_collected [of real 0 "[mkBall 0 0 (1 / 5)]"
        "[mkStar 5 0 True, mkStar 0 0 False]" "3 / 10"]
    by simp
qed

section \<open>Properties of the parser\<close>

subsection \<open>Evaluation on example inputs\<close>

lemmas char_classes =
  isSpace_def isDigit_def isLetter_def isWordChar_def isVar_def wordBefore_def wordAfter_def

lemma replaceAll_Cons:
  "replaceAll m k prev (c # cs) =
     (if k = 0 then
        (case m prev (c # cs) of
           Some (rep, n) \<Rightarrow> rep @ replaceAll m (n - 1) (Some c) cs
         | None \<Rightarrow> c # replaceAll m 0 (Some c) cs)
      else replaceAll m (k - 1) (Some c) cs)"
  by (cases k) simp_all

lemmas sanitize_eval =
  replaceAll_Cons
  sanitizeExpression_def trim_def stripLeadingVar_def replaceGlobal_def caretMatch_def lnMatch_def
  digitVarMatch_def varDigitMatch_def varParenMatch_def parenVarMatch_def parenParenMatch_def
  char_classes Let_def

lemma sanitize_2x: "sanitizeExpression ''y = 2x + 3'' = ''2*x + 3''"
  by (simp add: sanitize_eval)

lemma sanitize_2_times_x: "sanitizeExpression ''y = 2*x + 3'' = ''2*x + 3''"
  by (simp add: sanitize_eval)

lemma sanitize_foo: "sanitizeExpression ''y = foo(x)'' = ''foo(x)''"
  by (simp add: sanitize_eval)

lemma sanitize_ln: "sanitizeExpression ''y = ln(x)'' = ''log(x)''"
  by (simp add: sanitize_eval)

lemmas validate_eval =
  validateExpression_def allowedExpressionChar_def identifiers_def ALLOWED_IDENTIFIERS_def
  char_classes

lemma validate_linear: "validateExpression ''2*x + 3'' = None"
  by (simp add: validate_eval)

lemma validate_foo: "validateExpression ''foo(x)'' = Some (UnknownIdentifier ''foo'')"
  by (simp add: validate_eval)

lemma extract_plain1: "extractCondition (trim ''y = 2x + 3'') = (''y = 2x + 3'', None)"
  by (simp add: extractCondition_def trim_def char_classes)

lemma extract_plain2: "extractCondition (trim ''y = 2*x + 3'') = (''y = 2*x + 3'', None)"
  by (simp add: extractCondition_def trim_def char_classes)

lemma extract_foo: "extractCondition (trim ''y = foo(x)'') = (''y = foo(x)'', None)"
  by (simp add: extractCondition_def trim_def char_classes)

lemma extract_cond: "extractCondition (trim ''y = x {x > 0} '') = (''y = x'', Some ''x > 0'')"
  by (simp add: extractCondition_def trim_def char_classes)

lemma parse_linear:
  assumes "input = ''y = 2x + 3'' \<or> input = ''y = 2*x + 3''"
  shows "parseEquationToFunction E input =
     (case compileNumeric E ''x'' ''2*x + 3'' of
        None \<Rightarrow> Inl FailedToParseExpression
      | Some fn \<Rightarrow> Inr \<lparr>parsed_expr = ''2*x + 3'', parsed_f = fn,
                          parsed_df = centralDifference fn, parsed_type = YofX,
                          parsed_cond = None\<rparr>)"
proof -
  have "extractCondition (trim input) = (input, None)"
    using assms extract_plain1 extract_plain2 by auto
  moreover have "sanitizeExpression input = ''2*x + 3''"
    using assms sanitize_2x sanitize_2_times_x by auto
  moreover have "\<not> isXofY input"
    using assms by (auto simp: isXofY_def)
  ultimately show ?thesis
    by (simp add: parseEquationToFunction_def Let_def buildCondition_def validate_linear
          buildFunction_def buildDerivative_def split: option.splits)
qed

lemma parse_foo: "parseEquationToFunction E ''y = foo(x)'' = Inl (UnknownIdentifier ''foo'')"
  by (simp add: parseEquationToFunction_def Let_def extract_foo buildCondition_def
        sanitize_foo validate_foo)

lemma sanitize_sinx: "sanitizeExpression ''y = sinx + 1'' = ''sinx + 1''"
  by (simp add: sanitize_eval)

lemma extract_sinx: "extractCondition (trim ''y = sinx + 1'') = (''y = sinx + 1'', None)"
  by (simp add: extractCondition_def trim_def char_classes)

lemma identifiers_sinx: "identifiers ''sinx + 1'' = [''sinx'']"
  by (simp add: identifiers_def char_classes)

text \<open>
  The alias of the normalisation: \<open>ln(\<close> is rewritten to \<open>log(\<close> before validation, so the
  name \<open>ln\<close>, which is not in the whitelist, is accepted when written before a
  parenthesis.
\<close>

lemma ln_alias_accepted:
  "validateExpression (sanitizeExpression ''y = ln(x)'') = None \<and> ''ln'' \<notin> set ALLOWED_IDENTIFIERS"
  by (simp add: sanitize_ln) (simp add: validate_eval)

subsection \<open>Rejection of unknown identifiers\<close>

lemma unknown_identifier_rejected:
  assumes "\<exists>ident \<in> set (identifiers expr). ident \<notin> set ALLOWED_IDENTIFIERS"
  shows "validateExpression expr \<noteq> None"
proof -
  have "find (\<lambda>ident. ident \<notin> set ALLOWED_IDENTIFIERS) (identifiers expr) \<noteq> None"
    using assms by (auto simp: find_None_iff)
  then show ?thesis
    by (auto simp: validateExpression_def split: option.splits)
qed

lemma parse_rejects_unknown:
  assumes "\<exists>ident \<in> set (identifiers (sanitizeExpression (fst (extractCondition (trim input))))).
             ident \<notin> set ALLOWED_IDENTIFIERS"
  shows "\<exists>e. parseEquationToFunction E input = Inl e"
proof -
  obtain e where "validateExpression (sanitizeExpression (fst (extractCondition (trim input)))) = Some e"
    using unknown_identifier_rejected [OF assms] by auto
  then show ?thesis
    by (cases "buildCondition E (snd (extractCondition (trim input)))")
       (simp_all add: parseEquationToFunction_def Let_def)
qed

subsection \<open>The claims on the parser\<close>

text \<open>
  Claim C5. The inputs \<open>"y = 2x + 3"\<close> and \<open>"y = 2*x + 3"\<close> are normalised to the same
  expression text \<open>2*x + 3\<close>, so for every engine they parse to the same result; when the
  engine compiles that text to an evaluator, both inputs yield that evaluator; and when
  the engine gives the text its arithmetic meaning, the two evaluators return numbers
  that differ by at most \<open>1e-9\<close> (by nothing) at \<open>x = 0, 1, -5, 100\<close>.
\<close>

theorem implicit_multiplication_agrees:
  "parseEquationToFunction E ''y = 2x + 3'' = parseEquationToFunction E ''y = 2*x + 3'' \<and>
   (\<forall>ev. compileNumeric E ''x'' ''2*x + 3'' = Some ev \<longrightarrow>
      (\<exists>r1 r2. parseEquationToFunction E ''y = 2x + 3'' = Inr r1 \<and>
               parseEquationToFunction E ''y = 2*x + 3'' = Inr r2 \<and>
               parsed_f r1 = ev \<and> parsed_f r2 = ev)) \<and>
   (compileNumeric E ''x'' ''2*x + 3'' = Some (\<lambda>t. Num (2 * t + 3)) \<longrightarrow>
      (\<exists>r1 r2. parseEquationToFunction E ''y = 2x + 3'' = Inr r1 \<and>
               parseEquationToFunction E ''y = 2*x + 3'' = Inr r2 \<and>
               (\<forall>t \<in> {0, 1, - 5, 100}.
                  \<exists>v1 v2. parsed_f r1 t = Num v1 \<and> parsed_f r2 t = Num v2 \<and>
                          \<bar>v1 - v2\<bar> \<le> 0.000000001)))"
proof (intro conjI allI impI)
  show "parseEquationToFunction E ''y = 2x + 3'' = parseEquationToFunction E ''y = 2*x + 3''"
    by (simp add: parse_linear)
next
  fix ev
  assume "compileNumeric E ''x'' ''2*x + 3'' = Some ev"
  then show "\<exists>r1 r2. parseEquationToFunction E ''y = 2x + 3'' = Inr r1 \<and>
               parseEquationToFunction E ''y = 2*x + 3'' = Inr r2 \<and>
               parsed_f r1 = ev \<and> parsed_f r2 = ev"
    by (simp add: parse_linear)
next
  assume "compileNumeric E ''x'' ''2*x + 3'' = Some (\<lambda>t. Num (2 * t + 3))"
  then show "\<exists>r1 r2. parseEquationToFunction E ''y = 2x + 3'' = Inr r1 \<and>
               parseEquationToFunction E ''y = 2*x + 3'' = Inr r2 \<and>
               (\<forall>t \<in> {0, 1, - 5, 100}.
                  \<exists>v1 v2. parsed_f r1 t = Num v1 \<and> parsed_f r2 t = Num v2 \<and>
                          \<bar>v1 - v2\<bar> \<le> 0.000000001)"
    by (simp add: parse_linear)
qed

text \<open>
  Claim C5 with the engine that compiles \<open>2*x + 3\<close>: both inputs parse, and at \<open>x = 100\<close>
  both evaluators return \<open>203\<close>.
\<close>

theorem implicit_multiplication_agrees_witness:
  "compileNumeric linearEngine ''x'' ''2*x + 3'' = Some (\<lambda>t. Num (2 * t + 3)) \<and>
   (\<exists>r1 r2. parseEquationToFunction linearEngine ''y = 2x + 3'' = Inr r1 \<and>
            parseEquationToFunction linearEngine ''y = 2*x + 3'' = Inr r2 \<and>
            (\<exists>v1 v2. parsed_f r1 100 = Num v1 \<and> parsed_f r2 100 = Num v2 \<and>
                    \<bar>v1 - v2\<bar> \<le> 0.000000001))"
proof -
  have c: "compileNumeric linearEngine ''x'' ''2*x + 3'' = Some (\<lambda>t. Num (2 * t + 3))"
    by (simp add: linearEngine_def)
  have "\<exists>r1 r2. parseEquationToFunction linearEngine ''y = 2x + 3'' = Inr r1 \<and>
               parseEquationToFunction linearEngine ''y = 2*x + 3'' = Inr r2 \<and>
               (\<forall>t \<in> {0, 1, - 5, 100}.
                  \<exists>v1 v2. parsed_f r1 t = Num v1 \<and> parsed_f r2 t = Num v2 \<and>
                          \<bar>v1 - v2\<bar> \<le> 0.000000001)"
    using c implicit_multiplication_agrees [of linearEngine] by blast
  then obtain r1 r2 where r: "parseEquationToFunction linearEngine ''y = 2x + 3'' = Inr r1"
      "parseEquationToFunction linearEngine ''y = 2*x + 3'' = Inr r2"
      "\<forall>t \<in> {0, 1, - 5, 100}.
          \<exists>v1 v2. parsed_f r1 t = Num v1 \<and> parsed_f r2 t = Num v2 \<and> \<bar>v1 - v2\<bar> \<le> 0.000000001"
    by blast
  from r(3) have "\<exists>v1 v2. parsed_f r1 100 = Num v1 \<and> parsed_f r2 100 = Num v2 \<and>
                    \<bar>v1 - v2\<bar> \<le> 0.000000001"
    by blast
  with c r(1,2) show ?thesis by blast
qed

text \<open>
  Claim C6. For every engine, parsing \<open>"y = foo(x)"\<close> fails with the error whose
  message is \<open>Unknown identifier: foo\<close>; and whenever the normalised expression of an
  input contains an identifier token that is not in the whitelist, parsing fails with
  an error and yields no evaluator.
\<close>

theorem unknown_identifier_is_rejected:
  "parseEquationToFunction E ''y = foo(x)'' = Inl (UnknownIdentifier ''foo'') \<and>
   errorMessage (UnknownIdentifier ''foo'') = ''Unknown identifier: foo'' \<and>
   ((\<exists>ident \<in> set (identifiers (sanitizeExpression (fst (extractCondition (trim input))))).
        ident \<notin> set ALLOWED_IDENTIFIERS) \<longrightarrow>
    (\<exists>e. parseEquationToFunction E input = Inl e))"
  using parse_foo [of E] parse_rejects_unknown [of input E] by simp

text \<open>
  Claim C6 on \<open>"y = sinx + 1"\<close>, whose only identifier token is \<open>sinx\<close>.
\<close>

theorem unknown_identifier_is_rejected_witness:
  "(\<exists>ident \<in> set (identifiers (sanitizeExpression (fst (extractCondition (trim ''y = sinx + 1''))))).
        ident \<notin> set ALLOWED_IDENTIFIERS) \<and>
   (\<exists>e. parseEquationToFunction linearEngine ''y = sinx + 1'' = Inl e)"
proof -
  have h: "\<exists>ident \<in> set (identifiers (sanitizeExpression (fst (extractCondition (trim ''y = sinx + 1''))))).
        ident \<notin> set ALLOWED_IDENTIFIERS"
    by (simp add: extract_sinx sanitize_sinx identifiers_sinx) (simp add: ALLOWED_IDENTIFIERS_def)
  show ?thesis
    using h unknown_identifier_is_rejected [of linearEngine "''y = sinx + 1''"] by blast
qed

end
